theory Spec2Isabelle
  imports Complex_Main "HOL-Library.Multiset"
begin

section \<open>Data model (database.ts, ai-service.ts)\<close>

text \<open>
  The string-literal union types of \<^verbatim>\<open>SecurityEvent\<close> are datatypes; the
  functions \<open>event_type_str\<close>, \<open>severity_str\<close> and \<open>status_str\<close> give back the
  JavaScript strings where the code uses them as object keys.
\<close>

datatype event_type = Intrusion | Malware | Network_anomaly | Data_breach | Phishing | Dos_attack

datatype severity = Low | Medium | High | Critical

datatype status = New | Investigating | Resolved | False_positive

fun event_type_str :: "event_type \<Rightarrow> string" where
  "event_type_str Intrusion = ''intrusion''"
| "event_type_str Malware = ''malware''"
| "event_type_str Network_anomaly = ''network_anomaly''"
| "event_type_str Data_breach = ''data_breach''"
| "event_type_str Phishing = ''phishing''"
| "event_type_str Dos_attack = ''dos_attack''"

fun severity_str :: "severity \<Rightarrow> string" where
  "severity_str Low = ''low''"
| "severity_str Medium = ''medium''"
| "severity_str High = ''high''"
| "severity_str Critical = ''critical''"

fun status_str :: "status \<Rightarrow> string" where
  "status_str New = ''new''"
| "status_str Investigating = ''investigating''"
| "status_str Resolved = ''resolved''"
| "status_str False_positive = ''false_positive''"

text \<open>\<^verbatim>\<open>interface ThreatAnalysis\<close> of ai-service.ts.\<close>

record ThreatAnalysis =
  threat_type :: string
  severity_justification :: string
  recommended_actions :: "string list"
  confidence_score :: real
  risk_level :: severity
  similar_attacks :: "string list"
  indicators_of_compromise :: "string list"

text \<open>
  \<^verbatim>\<open>Omit<SecurityEvent, 'id'>\<close> is the record \<open>EventData\<close>, and \<^verbatim>\<open>SecurityEvent\<close>
  extends it with the identifier (the field \<^verbatim>\<open>id\<close> is called \<open>event_id\<close>).
  A \<^verbatim>\<open>Date\<close> is its time value in milliseconds, a \<^verbatim>\<open>number\<close> is a real,
  \<^verbatim>\<open>raw_data\<close> is kept as its JSON text, and an optional field is an option.
\<close>

record EventData =
  timestamp :: int
  event_type :: event_type
  severity :: severity
  source_ip :: string
  destination_ip :: "string option"
  description :: string
  raw_data :: string
  ai_analysis :: "string option"
  confidence_score :: "real option"
  status :: status
  tags :: "string list"
  embedding :: "real list option"

record SecurityEvent = EventData +
  event_id :: string

text \<open>A rejected promise or a thrown exception carries an error value.\<close>

datatype error = Error string

section \<open>The store (mock-data-store.ts)\<close>

record MockDataStore =
  events :: "SecurityEvent list"
  isGenerating :: bool

subsection \<open>addEvent\<close>

text \<open>
  \<^verbatim>\<open>addEvent\<close> is an async function with two \<^verbatim>\<open>await\<close>s, so one call runs in
  three segments; between them it is suspended on the promise of the analyzer.
  \<^item> \<open>addEvent_call\<close>: \<^verbatim>\<open>{ id: uuidv4(), ...eventData }\<close> and the call of
    \<^verbatim>\<open>aiAnalyzer.analyzeSecurityEvent(event)\<close>; the fresh uuid is the argument \<open>nid\<close>.
  \<^item> \<open>addEvent_analysis_settled\<close>: the first promise has settled, with \<open>Inr\<close> the
    analysis or \<open>Inl\<close> the rejection that the first \<^verbatim>\<open>catch\<close> logs; then
    \<^verbatim>\<open>generateEmbedding\<close> is called. \<open>stringify\<close> stands for \<^verbatim>\<open>JSON.stringify\<close>.
  \<^item> \<open>addEvent_embedding_settled\<close>: the second promise has settled; the event is put
    at the front of the list, the list is cut to 1000 entries, and the id is returned.
\<close>

datatype addEvent_task =
    AwaitAnalysis SecurityEvent
  | AwaitEmbedding SecurityEvent
  | Returned string

fun returned :: "addEvent_task \<Rightarrow> string option" where
  "returned (Returned i) = Some i"
| "returned (AwaitAnalysis ev) = None"
| "returned (AwaitEmbedding ev) = None"

definition new_event :: "string \<Rightarrow> EventData \<Rightarrow> SecurityEvent" where
  "new_event nid eventData = EventData.extend eventData (SecurityEvent.fields nid)"

definition addEvent_call :: "string \<Rightarrow> EventData \<Rightarrow> addEvent_task" where
  "addEvent_call nid eventData = AwaitAnalysis (new_event nid eventData)"

definition set_analysis ::
  "(ThreatAnalysis \<Rightarrow> string) \<Rightarrow> error + ThreatAnalysis \<Rightarrow> SecurityEvent \<Rightarrow> SecurityEvent" where
  "set_analysis stringify outcome event =
     (case outcome of
        Inr analysis \<Rightarrow>
          event\<lparr>ai_analysis := Some (stringify analysis),
                confidence_score := Some (ThreatAnalysis.confidence_score analysis)\<rparr>
      | Inl err \<Rightarrow> event)"

definition set_embedding :: "error + real list \<Rightarrow> SecurityEvent \<Rightarrow> SecurityEvent" where
  "set_embedding outcome event =
     (case outcome of
        Inr v \<Rightarrow> event\<lparr>embedding := Some v\<rparr>
      | Inl err \<Rightarrow> event)"

definition unshift_event ::
  "SecurityEvent \<Rightarrow> 'a MockDataStore_scheme \<Rightarrow> 'a MockDataStore_scheme" where
  "unshift_event event s =
     (let es = event # events s
      in s\<lparr>events := (if length es > 1000 then take 1000 es else es)\<rparr>)"

fun addEvent_analysis_settled ::
  "(ThreatAnalysis \<Rightarrow> string) \<Rightarrow> error + ThreatAnalysis \<Rightarrow> addEvent_task \<Rightarrow> addEvent_task" where
  "addEvent_analysis_settled stringify outcome (AwaitAnalysis event) =
     AwaitEmbedding (set_analysis stringify outcome event)"
| "addEvent_analysis_settled stringify outcome task = task"

fun addEvent_embedding_settled ::
  "error + real list \<Rightarrow> addEvent_task \<Rightarrow> MockDataStore \<Rightarrow> addEvent_task \<times> MockDataStore" where
  "addEvent_embedding_settled outcome (AwaitEmbedding event) s =
     (let event' = set_embedding outcome event
      in (Returned (event_id event'), unshift_event event' s))"
| "addEvent_embedding_settled outcome task s = (task, s)"

text \<open>
  One whole call: what the analyzer answered to the two requests of this call is part of
  the input (\<open>analysis\<close>, \<open>vector\<close>).
\<close>

record ingest =
  uuid :: string
  eventData :: EventData
  analysis :: "error + ThreatAnalysis"
  vector :: "error + real list"

definition addEvent ::
  "(ThreatAnalysis \<Rightarrow> string) \<Rightarrow> ingest \<Rightarrow> MockDataStore \<Rightarrow> addEvent_task \<times> MockDataStore" where
  "addEvent stringify c s =
     addEvent_embedding_settled (vector c)
       (addEvent_analysis_settled stringify (analysis c)
          (addEvent_call (uuid c) (eventData c))) s"

text \<open>The event object that a call puts into the list.\<close>

definition stored_event :: "(ThreatAnalysis \<Rightarrow> string) \<Rightarrow> ingest \<Rightarrow> SecurityEvent" where
  "stored_event stringify c =
     set_embedding (vector c)
       (set_analysis stringify (analysis c) (new_event (uuid c) (eventData c)))"

text \<open>
  A sequence of calls, in the order in which their last segments run (each last segment
  runs without interruption, so this is the order of insertion).
\<close>

fun addEvents :: "(ThreatAnalysis \<Rightarrow> string) \<Rightarrow> ingest list \<Rightarrow> MockDataStore \<Rightarrow> MockDataStore" where
  "addEvents stringify [] s = s"
| "addEvents stringify (c # cs) s = addEvents stringify cs (snd (addEvent stringify c s))"

subsection \<open>getEvents, getEventById, updateEventStatus\<close>

text \<open>
  \<^verbatim>\<open>Array.prototype.slice(start, end)\<close> on integer arguments: a negative index
  counts from the end of the array.
\<close>

definition js_index :: "nat \<Rightarrow> int \<Rightarrow> nat" where
  "js_index len k = (if k < 0 then nat (int len + k) else min (nat k) len)"

definition js_slice :: "int \<Rightarrow> int \<Rightarrow> 'a list \<Rightarrow> 'a list" where
  "js_slice start end xs =
     (let from = js_index (length xs) start; to = js_index (length xs) end
      in take (to - from) (drop from xs))"

definition getEvents :: "int \<Rightarrow> int \<Rightarrow> MockDataStore \<Rightarrow> SecurityEvent list" where
  "getEvents limit offset s = js_slice offset (offset + limit) (events s)"

definition getEventById :: "string \<Rightarrow> MockDataStore \<Rightarrow> SecurityEvent option" where
  "getEventById i s = find (\<lambda>event. event_id event = i) (events s)"

text \<open>
  \<^verbatim>\<open>if (aiAnalysis)\<close>: an absent argument and the empty string are both falsy.
\<close>

fun truthy :: "string option \<Rightarrow> bool" where
  "truthy None = False"
| "truthy (Some str) = (str \<noteq> [])"

definition set_status :: "status \<Rightarrow> string option \<Rightarrow> SecurityEvent \<Rightarrow> SecurityEvent" where
  "set_status st aiAnalysis event =
     (let event' = event\<lparr>status := st\<rparr>
      in if truthy aiAnalysis then event'\<lparr>ai_analysis := aiAnalysis\<rparr> else event')"

text \<open>
  The object that \<^verbatim>\<open>find\<close> returns is the first one with the id, and it is changed in
  place: in the list, that position changes and no other.
\<close>

fun update_found :: "string \<Rightarrow> (SecurityEvent \<Rightarrow> SecurityEvent) \<Rightarrow> SecurityEvent list \<Rightarrow> SecurityEvent list" where
  "update_found i f [] = []"
| "update_found i f (e # es) = (if event_id e = i then f e # es else e # update_found i f es)"

definition updateEventStatus ::
  "string \<Rightarrow> status \<Rightarrow> string option \<Rightarrow> MockDataStore \<Rightarrow> bool \<times> MockDataStore" where
  "updateEventStatus i st aiAnalysis s =
     (case find (\<lambda>e. event_id e = i) (events s) of
        Some event \<Rightarrow> (True, s\<lparr>events := update_found i (set_status st aiAnalysis) (events s)\<rparr>)
      | None \<Rightarrow> (False, s))"

subsection \<open>JavaScript numbers, sort and object keys\<close>

datatype jsnum = Num real | PosInf | NegInf | NaN

text \<open>
  A \<^verbatim>\<open>number\<close> is an IEEE double: a real (the two zeros are the one value \<open>0\<close>), an
  infinity or NaN. The doubles that are reals are the multiples \<open>m * 2\<^sup>e\<^sup>-\<^sup>5\<^sup>2\<close> with
  \<open>\<bar>m\<bar> < 2\<^sup>5\<^sup>3\<close> and \<open>-1022 \<le> e \<le> 1023\<close>. An arithmetic operation gives its exact
  result rounded to the nearest double, a tie going to the even \<open>m\<close>, and an infinity
  from \<open>2\<^sup>1\<^sup>0\<^sup>2\<^sup>4\<close> on: that is \<open>round_double\<close>, where \<open>e\<close> is the binary exponent of
  the exact result, and \<open>-1022\<close> for the results below the normal range.
\<close>

definition round_half_even :: "real \<Rightarrow> int" where
  "round_half_even y =
     (let f = \<lfloor>y\<rfloor>; d = y - of_int f
      in if d < 1 / 2 then f else if 1 / 2 < d then f + 1 else if even f then f else f + 1)"

definition round_double :: "real \<Rightarrow> jsnum" where
  "round_double x =
     (if x = 0 then Num 0
      else (let e = max \<lfloor>log 2 \<bar>x\<bar>\<rfloor> (- 1022);
                quantum = 2 powr (of_int e - 52);
                r = of_int (round_half_even (x / quantum)) * quantum
            in if 2 ^ 1024 \<le> r then PosInf
               else if r \<le> - (2 ^ 1024) then NegInf
               else Num r))"

text \<open>
  The operations \<^verbatim>\<open>+\<close>, \<^verbatim>\<open>-\<close>, \<^verbatim>\<open>*\<close>, \<^verbatim>\<open>/\<close>, \<^verbatim>\<open>Math.sqrt\<close> and \<^verbatim>\<open>>\<close>. A zero divisor
  is taken as \<open>+0\<close>: the one division of this file divides by a product of two square
  roots, which is never \<open>-0\<close>.
\<close>

definition infinity :: "bool \<Rightarrow> jsnum" where
  "infinity positive = (if positive then PosInf else NegInf)"

fun js_add :: "jsnum \<Rightarrow> jsnum \<Rightarrow> jsnum" where
  "js_add NaN y = NaN"
| "js_add x NaN = NaN"
| "js_add (Num x) (Num y) = round_double (x + y)"
| "js_add PosInf NegInf = NaN"
| "js_add NegInf PosInf = NaN"
| "js_add PosInf y = PosInf"
| "js_add NegInf y = NegInf"
| "js_add (Num x) PosInf = PosInf"
| "js_add (Num x) NegInf = NegInf"

fun js_sub :: "jsnum \<Rightarrow> jsnum \<Rightarrow> jsnum" where
  "js_sub NaN y = NaN"
| "js_sub x NaN = NaN"
| "js_sub (Num x) (Num y) = round_double (x - y)"
| "js_sub PosInf PosInf = NaN"
| "js_sub PosInf y = PosInf"
| "js_sub NegInf NegInf = NaN"
| "js_sub NegInf y = NegInf"
| "js_sub (Num x) PosInf = NegInf"
| "js_sub (Num x) NegInf = PosInf"

fun js_mul :: "jsnum \<Rightarrow> jsnum \<Rightarrow> jsnum" where
  "js_mul NaN y = NaN"
| "js_mul x NaN = NaN"
| "js_mul (Num x) (Num y) = round_double (x * y)"
| "js_mul (Num x) PosInf = (if x = 0 then NaN else infinity (0 < x))"
| "js_mul (Num x) NegInf = (if x = 0 then NaN else infinity (x < 0))"
| "js_mul PosInf (Num y) = (if y = 0 then NaN else infinity (0 < y))"
| "js_mul NegInf (Num y) = (if y = 0 then NaN else infinity (y < 0))"
| "js_mul PosInf PosInf = PosInf"
| "js_mul NegInf NegInf = PosInf"
| "js_mul PosInf NegInf = NegInf"
| "js_mul NegInf PosInf = NegInf"

fun js_div :: "jsnum \<Rightarrow> jsnum \<Rightarrow> jsnum" where
  "js_div NaN y = NaN"
| "js_div x NaN = NaN"
| "js_div (Num x) (Num y) =
     (if y = 0 then (if x = 0 then NaN else infinity (0 < x))
      else round_double (x / y))"
| "js_div (Num x) PosInf = Num 0"
| "js_div (Num x) NegInf = Num 0"
| "js_div PosInf (Num y) = infinity (0 \<le> y)"
| "js_div NegInf (Num y) = infinity (y < 0)"
| "js_div PosInf y = NaN"
| "js_div NegInf y = NaN"

fun js_sqrt :: "jsnum \<Rightarrow> jsnum" where
  "js_sqrt (Num x) = (if x < 0 then NaN else round_double (sqrt x))"
| "js_sqrt PosInf = PosInf"
| "js_sqrt NegInf = NaN"
| "js_sqrt NaN = NaN"

fun js_gt :: "jsnum \<Rightarrow> jsnum \<Rightarrow> bool" where
  "js_gt NaN y = False"
| "js_gt x NaN = False"
| "js_gt (Num x) (Num y) = (y < x)"
| "js_gt PosInf PosInf = False"
| "js_gt PosInf y = True"
| "js_gt NegInf y = False"
| "js_gt (Num x) NegInf = True"
| "js_gt (Num x) PosInf = False"

text \<open>
  The similarities that pass the test \<^verbatim>\<open>similarity > threshold\<close> are doubles or
  \<open>+Infinity\<close>; on these the sign of \<^verbatim>\<open>b.similarity - a.similarity\<close> tells which of
  the two is greater, also after rounding.
\<close>

definition rankable :: "jsnum \<Rightarrow> bool" where
  "rankable v \<longleftrightarrow> v = PosInf \<or> (\<exists>k :: int. v = Num (of_int k * 2 powr (- 1074)))"

text \<open>
  \<^verbatim>\<open>Array.prototype.sort(comparefn)\<close> is stable, and a comparator result that is
  NaN counts as \<open>0\<close>. For a consistent comparator the sorted array is determined; it is
  computed here by insertion from the right, where an element stays in front of the
  elements it does not compare greater than.
\<close>

fun not_after :: "jsnum \<Rightarrow> bool" where
  "not_after (Num v) = (v \<le> 0)"
| "not_after NaN = True"
| "not_after NegInf = True"
| "not_after PosInf = False"

fun insert_by :: "('a \<Rightarrow> 'a \<Rightarrow> jsnum) \<Rightarrow> 'a \<Rightarrow> 'a list \<Rightarrow> 'a list" where
  "insert_by cmp x [] = [x]"
| "insert_by cmp x (y # ys) =
     (if not_after (cmp x y) then x # y # ys else y # insert_by cmp x ys)"

definition js_sort :: "('a \<Rightarrow> 'a \<Rightarrow> jsnum) \<Rightarrow> 'a list \<Rightarrow> 'a list" where
  "js_sort cmp xs = foldr (insert_by cmp) xs []"

text \<open>
  An object used as a counter table, \<^verbatim>\<open>acc[key] = (acc[key] || 0) + 1\<close>: the keys
  are kept in the order of their first insertion, which is the order of
  \<^verbatim>\<open>Object.entries\<close> for keys that are not array indices.
\<close>

fun increment :: "string \<Rightarrow> (string \<times> nat) list \<Rightarrow> (string \<times> nat) list" where
  "increment key [] = [(key, 1)]"
| "increment key ((k, n) # acc) =
     (if k = key then (k, n + 1) # acc else (k, n) # increment key acc)"

definition count_by :: "('a \<Rightarrow> string) \<Rightarrow> 'a list \<Rightarrow> (string \<times> nat) list" where
  "count_by key xs = foldl (\<lambda>acc x. increment (key x) acc) [] xs"

text \<open>\<^verbatim>\<open>String.prototype.split(sep)\<close> for a separator of one character.\<close>

fun split :: "char \<Rightarrow> string \<Rightarrow> string list" where
  "split sep [] = ['''']"
| "split sep (c # cs) =
     (if c = sep then [] # split sep cs
      else (case split sep cs of
              part # parts \<Rightarrow> (c # part) # parts
            | [] \<Rightarrow> [c # '''']))"

text \<open>Reading an array element: \<open>None\<close> is \<^verbatim>\<open>undefined\<close>.\<close>

fun element :: "'a list \<Rightarrow> nat \<Rightarrow> 'a option" where
  "element [] k = None"
| "element (x # xs) 0 = Some x"
| "element (x # xs) (Suc k) = element xs k"

subsection \<open>searchSimilarEvents, cosineSimilarity\<close>

text \<open>
  The components of a vector are doubles that are reals. The three accumulators start
  at \<open>0\<close>; each \<^verbatim>\<open>+=\<close> rounds the product and then the sum.
\<close>

fun cosine_loop ::
  "real list \<Rightarrow> real list \<Rightarrow> jsnum \<times> jsnum \<times> jsnum \<Rightarrow> jsnum \<times> jsnum \<times> jsnum" where
  "cosine_loop (x # xs) (y # ys) (dotProduct, normA, normB) =
     cosine_loop xs ys
       (js_add dotProduct (js_mul (Num x) (Num y)),
        js_add normA (js_mul (Num x) (Num x)),
        js_add normB (js_mul (Num y) (Num y)))"
| "cosine_loop xs ys acc = acc"

definition cosineSimilarity :: "real list \<Rightarrow> real list \<Rightarrow> jsnum" where
  "cosineSimilarity a b =
     (if length a \<noteq> length b then Num 0
      else (case cosine_loop a b (Num 0, Num 0, Num 0) of
              (dotProduct, normA, normB) \<Rightarrow>
                js_div dotProduct (js_mul (js_sqrt normA) (js_sqrt normB))))"

text \<open>The objects \<^verbatim>\<open>{ event, similarity }\<close> (the field \<^verbatim>\<open>event\<close> is \<open>event_of\<close>).\<close>

record item =
  event_of :: SecurityEvent
  similarity :: jsnum

text \<open>
  The object that \<^verbatim>\<open>map\<close> builds for a candidate. The \<^verbatim>\<open>event.embedding!\<close> of
  the source is \<open>the (embedding event)\<close>; the filter before it keeps only events that
  have an embedding.
\<close>

definition score :: "real list \<Rightarrow> SecurityEvent \<Rightarrow> item" where
  "score target event =
     \<lparr>event_of = event, similarity = cosineSimilarity target (the (embedding event))\<rparr>"

text \<open>\<open>limit\<close> is the integer that \<^verbatim>\<open>slice\<close> makes of its second argument.\<close>

definition searchSimilarEvents ::
  "SecurityEvent \<Rightarrow> jsnum \<Rightarrow> int \<Rightarrow> MockDataStore \<Rightarrow> SecurityEvent list" where
  "searchSimilarEvents targetEvent threshold limit s =
     (case embedding targetEvent of
        None \<Rightarrow> []
      | Some target \<Rightarrow>
          (let similarities =
             js_slice 0 limit
               (js_sort (\<lambda>a b. js_sub (similarity b) (similarity a))
                  (filter (\<lambda>item. js_gt (similarity item) threshold)
                     (map (score target)
                        (filter (\<lambda>event. embedding event \<noteq> None
                                    \<and> event_id event \<noteq> event_id targetEvent)
                           (events s)))))
           in map event_of similarities))"

subsection \<open>getStats\<close>

text \<open>
  The clock and the local calendar are arguments: \<open>now\<close> is \<^verbatim>\<open>new Date()\<close> in
  milliseconds, \<open>dayStart\<close> and \<open>dayEnd\<close> are \<^verbatim>\<open>setHours(0, 0, 0, 0)\<close> and
  \<^verbatim>\<open>setHours(23, 59, 59, 999)\<close>, \<open>isoDate\<close> is
  \<^verbatim>\<open>toISOString().split('T')[0]\<close>.
\<close>

record calendar =
  dayStart :: "int \<Rightarrow> int"
  dayEnd :: "int \<Rightarrow> int"
  isoDate :: "int \<Rightarrow> string"

record daily =
  date :: string
  day_events :: nat
  day_critical :: nat
  day_high :: nat
  day_medium :: nat
  day_low :: nat

record stats =
  totalEvents :: nat
  recentEvents :: nat
  weeklyEvents :: nat
  criticalEvents :: nat
  highEvents :: nat
  resolvedEvents :: nat
  newEvents :: nat
  eventsByType :: "(string \<times> nat) list"
  eventsBySeverity :: "(string \<times> nat) list"
  eventsByStatus :: "(string \<times> nat) list"
  dailyStats :: "daily list"

definition day_stats :: "calendar \<Rightarrow> int \<Rightarrow> SecurityEvent list \<Rightarrow> int \<Rightarrow> daily" where
  "day_stats cal now es i =
     (let date = now - i * 24 * 60 * 60 * 1000;
          start = dayStart cal date;
          end = dayEnd cal start;
          dayEvents = filter (\<lambda>e. start \<le> timestamp e \<and> timestamp e \<le> end) es
      in \<lparr>date = isoDate cal start,
          day_events = length dayEvents,
          day_critical = length (filter (\<lambda>e. severity e = Critical) dayEvents),
          day_high = length (filter (\<lambda>e. severity e = High) dayEvents),
          day_medium = length (filter (\<lambda>e. severity e = Medium) dayEvents),
          day_low = length (filter (\<lambda>e. severity e = Low) dayEvents)\<rparr>)"

definition getStats :: "calendar \<Rightarrow> int \<Rightarrow> MockDataStore \<Rightarrow> stats" where
  "getStats cal now s =
     (let oneDayAgo = now - 24 * 60 * 60 * 1000;
          oneWeekAgo = now - 7 * 24 * 60 * 60 * 1000
      in \<lparr>totalEvents = length (events s),
          recentEvents = length (filter (\<lambda>e. oneDayAgo < timestamp e) (events s)),
          weeklyEvents = length (filter (\<lambda>e. oneWeekAgo < timestamp e) (events s)),
          criticalEvents = length (filter (\<lambda>e. severity e = Critical) (events s)),
          highEvents = length (filter (\<lambda>e. severity e = High) (events s)),
          resolvedEvents = length (filter (\<lambda>e. status e = Resolved) (events s)),
          newEvents = length (filter (\<lambda>e. status e = New) (events s)),
          eventsByType = count_by (\<lambda>e. event_type_str (event_type e)) (events s),
          eventsBySeverity = count_by (\<lambda>e. severity_str (severity e)) (events s),
          eventsByStatus = count_by (\<lambda>e. status_str (status e)) (events s),
          dailyStats = map (day_stats cal now (events s)) [6, 5, 4, 3, 2, 1, 0]\<rparr>)"

subsection \<open>getRecentActivity, getTopThreats\<close>

definition getRecentActivity :: "int \<Rightarrow> int \<Rightarrow> MockDataStore \<Rightarrow> SecurityEvent list" where
  "getRecentActivity now hours s =
     (let cutoff = now - hours * 60 * 60 * 1000
      in filter (\<lambda>event. cutoff < timestamp event) (events s))"

text \<open>
  The fields \<^verbatim>\<open>type\<close>, \<^verbatim>\<open>count\<close> and \<^verbatim>\<open>severity\<close> of an entry of the result are
  \<open>threat\<close>, \<open>occurrences\<close> and \<open>level\<close>; the two strings come from the
  destructuring \<^verbatim>\<open>const [type, severity] = key.split('_')\<close>, which reads the
  elements 0 and 1 of the array. The difference of two counts in the comparator is an
  integer far below \<open>2\<^sup>5\<^sup>3\<close> and needs no rounding.
\<close>

record top_threat =
  threat :: "string option"
  occurrences :: nat
  level :: "string option"

definition threat_key :: "SecurityEvent \<Rightarrow> string" where
  "threat_key event = event_type_str (event_type event) @ ''_'' @ severity_str (severity event)"

definition threat_entry :: "string \<times> nat \<Rightarrow> top_threat" where
  "threat_entry kc =
     (let parts = split (CHR ''_'') (fst kc)
      in \<lparr>threat = element parts 0, occurrences = snd kc, level = element parts 1\<rparr>)"

definition getTopThreats :: "int \<Rightarrow> MockDataStore \<Rightarrow> top_threat list" where
  "getTopThreats limit s =
     (let threatCounts = count_by threat_key (events s)
      in js_slice 0 limit
           (js_sort (\<lambda>a b. Num (real (occurrences b) - real (occurrences a)))
              (map threat_entry threatCounts)))"

section \<open>The analyzer (ai-service.ts)\<close>

definition mock_intrusion :: ThreatAnalysis where
  "mock_intrusion =
     \<lparr>threat_type = ''Unauthorized Access Attempt'',
      severity_justification = ''Multiple failed authentication attempts from suspicious IP address indicating potential brute force attack'',
      recommended_actions =
        [''Block source IP address immediately'',
         ''Review and strengthen authentication policies'',
         ''Monitor for additional attempts from same subnet'',
         ''Verify integrity of targeted accounts''],
      confidence_score = 87 / 100,
      risk_level = High,
      similar_attacks = [''Credential stuffing'', ''Dictionary attack'', ''SSH brute force''],
      indicators_of_compromise =
        [''Rapid authentication failures'', ''Non-standard user agent'', ''Geographic anomaly'']\<rparr>"

definition mock_malware :: ThreatAnalysis where
  "mock_malware =
     \<lparr>threat_type = ''Malicious File Execution'',
      severity_justification = ''Detected execution of known malicious binary with suspicious network communications'',
      recommended_actions =
        [''Isolate affected system immediately'',
         ''Run full system scan with updated definitions'',
         ''Check for lateral movement indicators'',
         ''Preserve system image for forensic analysis''],
      confidence_score = 94 / 100,
      risk_level = Critical,
      similar_attacks = [''Trojan deployment'', ''Ransomware execution'', ''Remote access tool''],
      indicators_of_compromise =
        [''Suspicious process execution'', ''Unexpected network traffic'', ''File system modifications'']\<rparr>"

definition mock_network_anomaly :: ThreatAnalysis where
  "mock_network_anomaly =
     \<lparr>threat_type = ''Abnormal Network Traffic Pattern'',
      severity_justification = ''Unusual data exfiltration patterns detected suggesting potential data breach'',
      recommended_actions =
        [''Monitor network traffic for sensitive data'',
         ''Check data access logs for anomalies'',
         ''Verify user account activities'',
         ''Review firewall and DLP policies''],
      confidence_score = 76 / 100,
      risk_level = Medium,
      similar_attacks = [''Data exfiltration'', ''Command and control communication'', ''DNS tunneling''],
      indicators_of_compromise =
        [''Unusual data volumes'', ''Off-hours activity'', ''Encrypted communications'']\<rparr>"

definition mockAnalyses :: "(string \<times> ThreatAnalysis) list" where
  "mockAnalyses =
     [(''intrusion'', mock_intrusion),
      (''malware'', mock_malware),
      (''network_anomaly'', mock_network_anomaly)]"

text \<open>
  \<^verbatim>\<open>getMockAnalysis\<close> reads one field of the partial event, \<^verbatim>\<open>event_type\<close>,
  which may be absent; it is the argument. \<open>None\<close> as a result is \<^verbatim>\<open>undefined\<close>.
\<close>

definition getMockAnalysis :: "event_type option \<Rightarrow> ThreatAnalysis option" where
  "getMockAnalysis t =
     (case (case t of
              Some c \<Rightarrow> map_of mockAnalyses (event_type_str c)
            | None \<Rightarrow> map_of mockAnalyses ''undefined'') of
        Some entry \<Rightarrow> Some entry
      | None \<Rightarrow> map_of mockAnalyses ''intrusion'')"

text \<open>
  What the OpenAI client did with the request: the call threw or its promise was
  rejected, or it delivered a message content, which may be null. \<open>parse\<close> is
  \<^verbatim>\<open>JSON.parse\<close>, with \<open>None\<close> for a syntax error. \<open>api_key\<close> says whether
  \<^verbatim>\<open>process.env.OPENAI_API_KEY\<close> is set.
\<close>

datatype completion = Rejected | Content "string option"

definition analyzeSecurityEvent ::
  "bool \<Rightarrow> completion \<Rightarrow> (string \<Rightarrow> ThreatAnalysis option) \<Rightarrow> event_type option
     \<Rightarrow> ThreatAnalysis option" where
  "analyzeSecurityEvent api_key completion parse t =
     (if \<not> api_key then getMockAnalysis t
      else (case completion of
              Rejected \<Rightarrow> getMockAnalysis t
            | Content None \<Rightarrow> getMockAnalysis t
            | Content (Some response) \<Rightarrow>
                (if response = [] then getMockAnalysis t
                 else (case parse response of
                         Some a \<Rightarrow> Some a
                       | None \<Rightarrow> getMockAnalysis t))))"

section \<open>Continuous generation (mock-data-store.ts)\<close>

text \<open>
  \<^verbatim>\<open>startContinuousGeneration\<close> starts a chain of activations of its closure
  \<^verbatim>\<open>generateEvent\<close>: an activation checks the flag, calls \<^verbatim>\<open>addEvent\<close> and is
  suspended at the \<^verbatim>\<open>await\<close>; when the call has settled it sets a timer for the next
  activation. Besides the store, the state holds what the event loop keeps of the chain:
  \<^item> \<open>timers\<close>: the pending \<^verbatim>\<open>setTimeout(generateEvent, ...)\<close> callbacks, each with the
    \<open>intervalMs\<close> of its closure (delays are not modelled: a pending timer may fire at
    any later point);
  \<^item> \<open>awaiting\<close>: the activations suspended at \<^verbatim>\<open>await this.addEvent(newEvent)\<close>;
  \<^item> \<open>addEvent_calls\<close>: the number of addEvent calls that activations have issued so
    far (a history variable).
\<close>

record runtime = MockDataStore +
  timers :: "nat list"
  awaiting :: "nat list"
  addEvent_calls :: nat

definition remove_nth :: "nat \<Rightarrow> 'a list \<Rightarrow> 'a list" where
  "remove_nth k xs = take k xs @ drop (Suc k) xs"

text \<open>The first segment of \<^verbatim>\<open>generateEvent\<close>, up to the \<^verbatim>\<open>await\<close>.\<close>

definition generateEvent :: "nat \<Rightarrow> runtime \<Rightarrow> runtime" where
  "generateEvent intervalMs r =
     (if \<not> isGenerating r then r
      else r\<lparr>awaiting := awaiting r @ [intervalMs], addEvent_calls := addEvent_calls r + 1\<rparr>)"

definition startContinuousGeneration :: "nat \<Rightarrow> runtime \<Rightarrow> runtime" where
  "startContinuousGeneration intervalMs r =
     (if isGenerating r then r
      else generateEvent intervalMs (r\<lparr>isGenerating := True\<rparr>))"

definition stopContinuousGeneration :: "runtime \<Rightarrow> runtime" where
  "stopContinuousGeneration r = r\<lparr>isGenerating := False\<rparr>"

text \<open>
  The steps of the event loop: the two methods are called, the \<open>k\<close>-th pending timer
  fires, or the addEvent call of the \<open>k\<close>-th suspended activation settles. In the last
  case \<open>c\<close> is the call (generated event, uuid, answers of the analyzer): its event is
  in the list, and the activation goes on to \<^verbatim>\<open>setTimeout\<close>. A step that names a timer
  or an activation that does not exist is not possible (\<open>None\<close>).
\<close>

datatype action = Start nat | Stop | TimerFires nat | AddEventSettled nat ingest

fun is_start :: "action \<Rightarrow> bool" where
  "is_start (Start intervalMs) = True"
| "is_start a = False"

fun step :: "(ThreatAnalysis \<Rightarrow> string) \<Rightarrow> action \<Rightarrow> runtime \<Rightarrow> runtime option" where
  "step stringify (Start intervalMs) r = Some (startContinuousGeneration intervalMs r)"
| "step stringify Stop r = Some (stopContinuousGeneration r)"
| "step stringify (TimerFires k) r =
     (if k < length (timers r)
      then Some (generateEvent (timers r ! k) (r\<lparr>timers := remove_nth k (timers r)\<rparr>))
      else None)"
| "step stringify (AddEventSettled k c) r =
     (if k < length (awaiting r)
      then Some ((unshift_event (stored_event stringify c) r)
                   \<lparr>awaiting := remove_nth k (awaiting r),
                    timers := timers r @ [awaiting r ! k]\<rparr>)
      else None)"

fun run :: "(ThreatAnalysis \<Rightarrow> string) \<Rightarrow> action list \<Rightarrow> runtime \<Rightarrow> runtime option" where
  "run stringify [] r = Some r"
| "run stringify (a # as) r =
     (case step stringify a r of
        Some r' \<Rightarrow> run stringify as r'
      | None \<Rightarrow> None)"

section \<open>Example data\<close>

definition example_data :: "event_type \<Rightarrow> severity \<Rightarrow> EventData" where
  "example_data t sev =
     \<lparr>timestamp = 0, event_type = t, severity = sev, source_ip = ''10.0.0.1'',
      destination_ip = None, description = ''probe'', raw_data = ''{}'',
      ai_analysis = None, confidence_score = None, status = New, tags = [],
      embedding = None\<rparr>"

definition example_event :: "string \<Rightarrow> real list option \<Rightarrow> SecurityEvent" where
  "example_event i v = (new_event i (example_data Intrusion Low))\<lparr>embedding := v\<rparr>"

definition example_ingest :: "string \<Rightarrow> ingest" where
  "example_ingest i =
     \<lparr>uuid = i, eventData = example_data Malware High,
      analysis = Inl (Error ''rejected''), vector = Inl (Error ''rejected'')\<rparr>"

section \<open>Properties of the store\<close>

lemma events_unshift_event: "events (unshift_event e s) = take 1000 (e # events s)"
  by (simp add: unshift_event_def Let_def)

lemma addEvent_eq:
  "addEvent f c s = (Returned (uuid c), unshift_event (stored_event f c) s)"
  by (simp add: addEvent_def addEvent_call_def stored_event_def Let_def set_embedding_def
      set_analysis_def new_event_def EventData.defs SecurityEvent.defs split: sum.splits)

lemma events_addEvent:
  "events (snd (addEvent f c s)) = take 1000 (stored_event f c # events s)"
  by (simp add: addEvent_eq events_unshift_event)

lemma take_append_take: "take n (xs @ take n ys) = take n (xs @ ys)"
  by (simp add: min_def)

lemma events_addEvents:
  "length (events s) \<le> 1000 \<Longrightarrow>
   events (addEvents f cs s) = take 1000 (rev (map (stored_event f) cs) @ events s)"
proof (induction cs arbitrary: s)
  case Nil
  then show ?case by simp
next
  case (Cons c cs)
  have "length (events (snd (addEvent f c s))) \<le> 1000"
    by (simp add: events_addEvent)
  then have "events (addEvents f (c # cs) s)
      = take 1000 (rev (map (stored_event f) cs) @ take 1000 (stored_event f c # events s))"
    by (simp only: addEvents.simps Cons.IH events_addEvent)
  also have "\<dots> = take 1000 (rev (map (stored_event f) cs) @ stored_event f c # events s)"
    by (rule take_append_take)
  finally show ?case by simp
qed

lemma length_events_addEvents:
  "length (events s) \<le> 1000 \<Longrightarrow> length (events (addEvents f cs s)) \<le> 1000"
  by (simp add: events_addEvents)

lemma find_event_None:
  "find (\<lambda>e. event_id e = i) es = None \<longleftrightarrow> i \<notin> event_id ` set es"
  by (induction es) auto

lemma update_found_frame:
  "i \<in> event_id ` set es \<Longrightarrow>
   \<exists>k < length es. event_id (es ! k) = i \<and> (\<forall>j < k. event_id (es ! j) \<noteq> i)
      \<and> update_found i f es = es[k := f (es ! k)]"
proof (induction es)
  case Nil
  then show ?case by simp
next
  case (Cons e es)
  show ?case
  proof (cases "event_id e = i")
    case True
    then have "event_id ((e # es) ! 0) = i \<and> (\<forall>j < 0. event_id ((e # es) ! j) \<noteq> i)
        \<and> update_found i f (e # es) = (e # es)[0 := f ((e # es) ! 0)]"
      by simp
    then show ?thesis by blast
  next
    case False
    with Cons.prems have "i \<in> event_id ` set es" by auto
    from Cons.IH [OF this] obtain k where k: "k < length es" "event_id (es ! k) = i"
      "\<forall>j < k. event_id (es ! j) \<noteq> i" "update_found i f es = es[k := f (es ! k)]"
      by blast
    have "\<forall>j < Suc k. event_id ((e # es) ! j) \<noteq> i"
      using False k(3) by (auto simp: less_Suc_eq_0_disj)
    moreover have "update_found i f (e # es) = (e # es)[Suc k := f ((e # es) ! Suc k)]"
      using False k(4) by simp
    ultimately show ?thesis
      using k(1,2) by (intro exI [of _ "Suc k"]) simp
  qed
qed

subsection \<open>C1: addEvent returns the id after the enrichment\<close>

text \<open>
  C1, as stated: addEvent hands the id to the caller immediately, before the enrichment
  has completed. In the code the first segment of a call ends at
  \<^verbatim>\<open>await aiAnalyzer.analyzeSecurityEvent(event)\<close> with nothing returned: the call
  below is suspended, waiting for the analysis.
\<close>

theorem addEvent_call_not_returned:
  "addEvent_call ''id-1'' (example_data Intrusion Low)
     = AwaitAnalysis (new_event ''id-1'' (example_data Intrusion Low))
   \<and> returned (addEvent_call ''id-1'' (example_data Intrusion Low)) = None"
  by (simp add: addEvent_call_def)

text \<open>
  C1, amended: for every partial event, addEvent returns the new id only once both
  enrichment requests (analysis, then embedding) have settled; it has not returned after
  the call segment nor after the analysis has settled. Whatever the two outcomes are,
  a result or a rejection, the call then returns the new id, and the event with that id
  is at the front of the stored list.
\<close>

theorem addEvent_returns_after_enrichment:
  "returned (addEvent_call (uuid c) (eventData c)) = None
   \<and> returned (addEvent_analysis_settled f (analysis c) (addEvent_call (uuid c) (eventData c))) = None
   \<and> returned (fst (addEvent f c s)) = Some (uuid c)
   \<and> events (snd (addEvent f c s)) = take 1000 (stored_event f c # events s)
   \<and> event_id (stored_event f c) = uuid c"
proof -
  have "event_id (stored_event f c) = uuid c"
    by (simp add: stored_event_def set_embedding_def set_analysis_def new_event_def
        EventData.defs SecurityEvent.defs split: sum.splits)
  moreover have "returned (fst (addEvent f c s)) = Some (uuid c)"
    by (simp add: addEvent_eq)
  ultimately show ?thesis
    by (simp add: addEvent_call_def events_addEvent)
qed

subsection \<open>C2: the list holds the 1000 most recently inserted events\<close>

text \<open>
  C2: for every sequence of addEvent calls on a store that holds at most 1000 events,
  the store holds at most 1000 events afterwards, and they are the most recently inserted
  ones, newest first, followed by what is left of the earlier content; a call on a full
  store drops the last entry of the list, which is the one inserted longest ago.
\<close>

theorem store_capacity:
  "length (events s) \<le> 1000 \<Longrightarrow>
     length (events (addEvents f cs s)) \<le> 1000
   \<and> events (addEvents f cs s) = take 1000 (rev (map (stored_event f) cs) @ events s)
   \<and> (length (events s) = 1000 \<longrightarrow>
        events (snd (addEvent f c s)) = stored_event f c # butlast (events s))"
proof (intro conjI impI)
  assume le: "length (events s) \<le> 1000"
  show "length (events (addEvents f cs s)) \<le> 1000"
    using le by (rule length_events_addEvents)
  show "events (addEvents f cs s) = take 1000 (rev (map (stored_event f) cs) @ events s)"
    using le by (rule events_addEvents)
next
  assume full: "length (events s) = 1000"
  have "take 999 (events s) = butlast (events s)"
    using full by (simp add: butlast_conv_take)
  then show "events (snd (addEvent f c s)) = stored_event f c # butlast (events s)"
    by (simp add: events_addEvent)
qed

theorem store_capacity_witness:
  "length (events \<lparr>events = replicate 1000 (example_event ''old'' None), isGenerating = False\<rparr>) \<le> 1000
   \<and> length (events \<lparr>events = replicate 1000 (example_event ''old'' None), isGenerating = False\<rparr>) = 1000
   \<and> events (addEvents threat_type [example_ingest ''a'', example_ingest ''b'']
         \<lparr>events = replicate 1000 (example_event ''old'' None), isGenerating = False\<rparr>)
       = stored_event threat_type (example_ingest ''b'') # stored_event threat_type (example_ingest ''a'')
           # replicate 998 (example_event ''old'' None)
   \<and> events (snd (addEvent threat_type (example_ingest ''c'')
         \<lparr>events = replicate 1000 (example_event ''old'' None), isGenerating = False\<rparr>))
       = stored_event threat_type (example_ingest ''c'') # replicate 999 (example_event ''old'' None)"
  using store_capacity [of "\<lparr>events = replicate 1000 (example_event ''old'' None), isGenerating = False\<rparr>"
      threat_type "[example_ingest ''a'', example_ingest ''b'']" "example_ingest ''c''"]
  by (simp add: butlast_conv_take)

subsection \<open>C8: updateEventStatus reports whether the id was found\<close>

text \<open>
  C8: for an id that no stored event has, updateEventStatus returns false and the store
  is unchanged; for an id that some stored event has, it returns true.
\<close>

theorem updateEventStatus_result:
  "(i \<notin> event_id ` set (events s) \<longrightarrow> updateEventStatus i st a s = (False, s))
   \<and> (i \<in> event_id ` set (events s) \<longrightarrow> fst (updateEventStatus i st a s) = True)"
proof (intro conjI impI)
  assume "i \<notin> event_id ` set (events s)"
  then have "find (\<lambda>e. event_id e = i) (events s) = None"
    by (simp add: find_event_None)
  then show "updateEventStatus i st a s = (False, s)"
    by (simp add: updateEventStatus_def)
next
  assume "i \<in> event_id ` set (events s)"
  then have "find (\<lambda>e. event_id e = i) (events s) \<noteq> None"
    by (simp add: find_event_None)
  then show "fst (updateEventStatus i st a s) = True"
    by (auto simp: updateEventStatus_def)
qed

theorem updateEventStatus_result_witness:
  "''x'' \<notin> event_id ` set (events \<lparr>events = [example_event ''e1'' None], isGenerating = False\<rparr>)
   \<and> updateEventStatus ''x'' Resolved None \<lparr>events = [example_event ''e1'' None], isGenerating = False\<rparr>
       = (False, \<lparr>events = [example_event ''e1'' None], isGenerating = False\<rparr>)
   \<and> ''e1'' \<in> event_id ` set (events \<lparr>events = [example_event ''e1'' None], isGenerating = False\<rparr>)
   \<and> fst (updateEventStatus ''e1'' Resolved None \<lparr>events = [example_event ''e1'' None], isGenerating = False\<rparr>) = True"
  using updateEventStatus_result [of "''x''" "\<lparr>events = [example_event ''e1'' None], isGenerating = False\<rparr>" Resolved None]
    updateEventStatus_result [of "''e1''" "\<lparr>events = [example_event ''e1'' None], isGenerating = False\<rparr>" Resolved None]
  by (simp add: example_event_def new_event_def EventData.defs SecurityEvent.defs)

subsection \<open>C10: updateEventStatus changes one event's status and analysis only\<close>

text \<open>
  C10: for an id that is present, updateEventStatus changes the first event with that id,
  at position \<open>k\<close>: its status becomes the new status, its ai_analysis becomes the
  argument when a (non-empty) argument is given and stays as it was otherwise, and all
  its other fields keep their values. Every other position of the list, the length of
  the list and the generation flag are unchanged.
\<close>

theorem updateEventStatus_frame:
  assumes "i \<in> event_id ` set (events s)"
  shows "\<exists>k < length (events s).
           event_id (events s ! k) = i \<and> (\<forall>j < k. event_id (events s ! j) \<noteq> i)
         \<and> isGenerating (snd (updateEventStatus i st a s)) = isGenerating s
         \<and> length (events (snd (updateEventStatus i st a s))) = length (events s)
         \<and> (\<forall>j < length (events s). j \<noteq> k \<longrightarrow>
               events (snd (updateEventStatus i st a s)) ! j = events s ! j)
         \<and> (let old = events s ! k; new = events (snd (updateEventStatus i st a s)) ! k
            in status new = st
             \<and> ai_analysis new = (if truthy a then a else ai_analysis old)
             \<and> event_id new = event_id old \<and> timestamp new = timestamp old
             \<and> event_type new = event_type old \<and> severity new = severity old
             \<and> source_ip new = source_ip old \<and> destination_ip new = destination_ip old
             \<and> description new = description old \<and> raw_data new = raw_data old
             \<and> confidence_score new = confidence_score old \<and> tags new = tags old
             \<and> embedding new = embedding old)"
proof -
  from update_found_frame [OF assms, of "set_status st a"]
  obtain k where k: "k < length (events s)" "event_id (events s ! k) = i"
    "\<forall>j < k. event_id (events s ! j) \<noteq> i"
    "update_found i (set_status st a) (events s) = (events s)[k := set_status st a (events s ! k)]"
    by blast
  have "find (\<lambda>e. event_id e = i) (events s) \<noteq> None"
    using assms by (simp add: find_event_None)
  then have upd: "snd (updateEventStatus i st a s)
      = s\<lparr>events := (events s)[k := set_status st a (events s ! k)]\<rparr>"
    using k(4) by (auto simp: updateEventStatus_def)
  show ?thesis
    using k(1,2,3) by (intro exI [of _ k]) (simp add: upd set_status_def Let_def)
qed

theorem updateEventStatus_frame_witness:
  "''e2'' \<in> event_id ` set (events \<lparr>events = [example_event ''e1'' None, example_event ''e2'' None], isGenerating = False\<rparr>)
   \<and> events (snd (updateEventStatus ''e2'' Resolved (Some ''note'')
          \<lparr>events = [example_event ''e1'' None, example_event ''e2'' None], isGenerating = False\<rparr>))
       = [example_event ''e1'' None,
          (example_event ''e2'' None)\<lparr>ai_analysis := Some ''note'', status := Resolved\<rparr>]"
  using updateEventStatus_frame [of "''e2''"
      "\<lparr>events = [example_event ''e1'' None, example_event ''e2'' None], isGenerating = False\<rparr>"
      Resolved "Some ''note''"]
  by (simp add: updateEventStatus_def set_status_def example_event_def new_event_def
      EventData.defs SecurityEvent.defs)

subsection \<open>C3: cosineSimilarity\<close>

text \<open>Rounding: the value at zero, and how a rounded value is computed.\<close>

lemma round_double_0: "round_double 0 = Num 0"
  by (simp add: round_double_def)

lemma round_half_even_near:
  assumes "\<bar>y - of_int m\<bar> < 1 / 2"
  shows "round_half_even y = m"
proof -
  note both = abs_less_iff [THEN iffD1, OF assms]
  have lo: "of_int m - 1 / 2 < y"
    using both [THEN conjunct2] by linarith
  have hi: "y < of_int m + 1 / 2"
    using both [THEN conjunct1] by linarith
  show ?thesis
  proof (cases "of_int m \<le> y")
    case True
    have "\<lfloor>y\<rfloor> = m"
    proof (rule floor_unique)
      show "of_int m \<le> y" by (rule True)
      show "y < of_int m + 1" using hi by linarith
    qed
    moreover have "y - of_int m < 1 / 2" using hi by linarith
    ultimately show ?thesis by (simp add: round_half_even_def Let_def)
  next
    case False
    have f: "\<lfloor>y\<rfloor> = m - 1"
    proof (rule floor_unique)
      show "of_int (m - 1) \<le> y" using lo by simp
      show "y < of_int (m - 1) + 1" using False by simp
    qed
    have more: "1 / 2 < y - of_int (m - 1)" using lo by simp
    then have "\<not> y - of_int (m - 1) < 1 / 2" by linarith
    then show ?thesis using f more
      by (simp add: round_half_even_def Let_def)
  qed
qed

lemma round_half_even_int: "round_half_even (of_int m) = m"
  by (rule round_half_even_near) simp

lemma round_half_even_numeral: "round_half_even (numeral n) = numeral n"
  using round_half_even_int [of "numeral n"] by simp

lemma round_half_even_neg_numeral: "round_half_even (- numeral n) = - numeral n"
  using round_half_even_int [of "- numeral n"] by simp

lemma round_double_eq:
  fixes x :: real
  assumes "x \<noteq> 0" "2 powr of_int e \<le> \<bar>x\<bar>" "\<bar>x\<bar> < 2 powr (of_int e + 1)" "- 1022 \<le> e"
    and m: "round_half_even (x / 2 powr (of_int e - 52)) = m"
    and bound: "\<bar>real_of_int m * 2 powr (of_int e - 52)\<bar> < 2 ^ 1024"
  shows "round_double x = Num (of_int m * 2 powr (of_int e - 52))"
proof -
  have "\<lfloor>log 2 \<bar>x\<bar>\<rfloor> = e"
    using assms(1,2,3) by (subst floor_log_eq_powr_iff) simp_all
  then have e: "max \<lfloor>log 2 \<bar>x\<bar>\<rfloor> (- 1022) = e"
    using assms(4) by simp
  have up: "\<not> 2 ^ 1024 \<le> real_of_int m * 2 powr (of_int e - 52)"
    and down: "\<not> real_of_int m * 2 powr (of_int e - 52) \<le> - (2 ^ 1024)"
    using bound by linarith+
  show ?thesis
    unfolding round_double_def Let_def e m
    using assms(1) up down by (simp only: if_False)
qed

lemma round_double_1: "round_double 1 = Num 1"
  using round_double_eq [of 1 0 "2 ^ 52"]
  by (simp add: round_half_even_numeral powr_minus)

lemma round_double_minus_1: "round_double (- 1) = Num (- 1)"
  using round_double_eq [of "- 1" 0 "- (2 ^ 52)"]
  by (simp add: round_half_even_neg_numeral powr_minus)

lemma round_double_2: "round_double 2 = Num 2"
  using round_double_eq [of 2 1 "2 ^ 52"]
  by (simp add: round_half_even_numeral powr_minus)

lemma round_double_3: "round_double 3 = Num 3"
  using round_double_eq [of 3 1 "3 * 2 ^ 51"]
  by (simp add: round_half_even_numeral powr_minus)

lemma round_half_even_between:
  assumes "of_int m - 1 / 2 < y" "y < of_int m + 1 / 2"
  shows "round_half_even y = m"
proof (rule round_half_even_near)
  show "\<bar>y - of_int m\<bar> < 1 / 2"
    unfolding abs_less_iff using assms by argo
qed

lemma round_double_sqrt_3: "round_double (sqrt 3) = Num (7800463371553962 / 2 ^ 52)"
proof -
  have lo: "(15600926743107923 / 2 ^ 53 :: real) < sqrt 3"
    by (rule real_less_rsqrt) (simp add: power2_eq_square)
  have hi: "sqrt 3 < (15600926743107925 / 2 ^ 53 :: real)"
    by (rule real_less_lsqrt) (simp_all add: power2_eq_square)
  have m: "round_half_even (sqrt 3 * 2 ^ 52) = 7800463371553962"
  proof (rule round_half_even_between)
    show "real_of_int 7800463371553962 - 1 / 2 < sqrt 3 * 2 ^ 52"
      using lo by simp
    show "sqrt 3 * 2 ^ 52 < real_of_int 7800463371553962 + 1 / 2"
      using hi by simp
  qed
  have one: "1 \<le> sqrt 3" by simp
  have two: "sqrt 3 < 2" using hi by simp
  show ?thesis
    using round_double_eq [of "sqrt 3" 0 7800463371553962] m one two
    by (simp add: powr_minus)
qed

lemma round_double_square:
  "round_double (7800463371553962 / 2 ^ 52 * (7800463371553962 / 2 ^ 52))
     = Num (6755399441055743 / 2 ^ 51)"
proof -
  have m: "round_half_even (7800463371553962 / 2 ^ 52 * (7800463371553962 / 2 ^ 52) * 2 ^ 51)
      = 6755399441055743"
    by (rule round_half_even_between) simp_all
  show ?thesis
    using round_double_eq [of "7800463371553962 / 2 ^ 52 * (7800463371553962 / 2 ^ 52)" 1
        6755399441055743] m
    by (simp add: powr_minus)
qed

lemma round_double_quotient:
  "round_double (3 / (6755399441055743 / 2 ^ 51)) = Num (4503599627370497 / 2 ^ 52)"
proof -
  have m: "round_half_even (3 / (6755399441055743 / 2 ^ 51) * 2 ^ 52) = 4503599627370497"
    by (rule round_half_even_between) simp_all
  show ?thesis
    using round_double_eq [of "3 / (6755399441055743 / 2 ^ 51)" 0 4503599627370497] m
    by (simp add: powr_minus)
qed

lemma cosine_ones:
  "cosineSimilarity [1, 1, 1] [1, 1, 1] = Num (4503599627370497 / 2 ^ 52)"
proof -
  have loop: "cosine_loop [1, 1, 1] [1, 1, 1] (Num 0, Num 0, Num 0) = (Num 3, Num 3, Num 3)"
    by (simp add: round_double_1 round_double_2 round_double_3)
  have root: "js_sqrt (Num 3) = Num (7800463371553962 / 2 ^ 52)"
    by (simp add: round_double_sqrt_3)
  have prod: "js_mul (Num (7800463371553962 / 2 ^ 52)) (Num (7800463371553962 / 2 ^ 52))
      = Num (6755399441055743 / 2 ^ 51)"
    by (simp only: js_mul.simps round_double_square)
  have nz: "(6755399441055743 / 2 ^ 51 :: real) \<noteq> 0"
    by simp
  have quot: "js_div (Num 3) (Num (6755399441055743 / 2 ^ 51)) = Num (4503599627370497 / 2 ^ 52)"
    by (simp only: js_div.simps nz if_False round_double_quotient)
  have "cosineSimilarity [1, 1, 1] [1, 1, 1]
      = js_div (Num 3) (js_mul (js_sqrt (Num 3)) (js_sqrt (Num 3)))"
    unfolding cosineSimilarity_def loop
    by (simp del: js_sqrt.simps js_mul.simps js_div.simps)
  then show ?thesis
    by (simp only: root prod quot)
qed

lemma round_double_tiny:
  fixes x :: real
  assumes "0 < x" "x < 2 powr (- 1075)"
  shows "round_double x = Num 0"
proof -
  have "x < 2 powr (- 1022)"
    using assms(2) by (rule less_trans) simp
  then have "log 2 x < - 1022"
    using assms(1) by (simp add: log_less_iff)
  then have "\<lfloor>log 2 \<bar>x\<bar>\<rfloor> \<le> - 1022"
    using assms(1) by (simp add: floor_le_iff)
  then have e: "max \<lfloor>log 2 \<bar>x\<bar>\<rfloor> (- 1022) = - 1022"
    by simp
  have "x / 2 powr (- 1074) < 2 powr (- 1075) / 2 powr (- 1074)"
    using assms(2) by (simp add: divide_strict_right_mono)
  also have "2 powr (- 1075) / 2 powr (- 1074) = (1 / 2 :: real)"
    by (simp add: powr_diff [symmetric])
  finally have "x / 2 powr (- 1074) < 1 / 2" .
  moreover have "0 \<le> x / 2 powr (- 1074)"
    using assms(1) by simp
  ultimately have "round_half_even (x / 2 powr (- 1074)) = 0"
    by (intro round_half_even_between) simp_all
  then show ?thesis
    using assms(1) unfolding round_double_def Let_def e by simp
qed

lemma cosine_underflow: "cosineSimilarity [1 / 2 ^ 600] [1] = PosInf"
proof -
  have small: "round_double (1 / 2 ^ 600 * (1 / 2 ^ 600)) = Num 0"
  proof (rule round_double_tiny)
    show "(0 :: real) < 1 / 2 ^ 600 * (1 / 2 ^ 600)" by simp
    have "(2 :: real) powr (- 1075) = 1 / 2 ^ 1075"
      by (simp add: powr_minus_divide)
    moreover have "(1 / 2 ^ 600 * (1 / 2 ^ 600) :: real) = 1 / 2 ^ 1200"
      by (simp add: power_add [symmetric])
    moreover have "(1 / 2 ^ 1200 :: real) < 1 / 2 ^ 1075"
      by (simp add: power_strict_increasing del: power_numeral_even power_numeral_odd)
    ultimately show "(1 / 2 ^ 600 * (1 / 2 ^ 600) :: real) < 2 powr (- 1075)"
      by (simp only:)
  qed
  have same: "round_double (1 / 2 ^ 600) = Num (1 / 2 ^ 600)"
  proof -
    have p: "(2 :: real) powr (- 600) = 1 / 2 ^ 600" "(2 :: real) powr (- 599) = 1 / 2 ^ 599"
      "(2 :: real) powr (- 652) = 1 / 2 ^ 652"
      by (simp_all add: powr_minus_divide)
    have "(1 / 2 ^ 600 :: real) / (1 / 2 ^ 652) = 2 ^ 52"
      by simp
    then have m: "round_half_even ((1 / 2 ^ 600) / 2 powr (of_int (- 600) - 52)) = 2 ^ 52"
      by (simp add: p round_half_even_numeral)
    have "round_double (1 / 2 ^ 600) = Num (of_int (2 ^ 52) * 2 powr (of_int (- 600) - 52))"
    proof (rule round_double_eq [OF _ _ _ _ m])
      show "(1 / 2 ^ 600 :: real) \<noteq> 0" by simp
      show "2 powr real_of_int (- 600) \<le> \<bar>1 / 2 ^ 600 :: real\<bar>" by (simp add: p)
      show "\<bar>1 / 2 ^ 600 :: real\<bar> < 2 powr (real_of_int (- 600) + 1)" by (simp add: p)
      show "- 1022 \<le> (- 600 :: int)" by simp
      show "\<bar>real_of_int (2 ^ 52) * 2 powr (real_of_int (- 600) - 52)\<bar> < 2 ^ 1024"
        by (simp add: p)
    qed
    then show ?thesis by (simp add: p)
  qed
  have loop: "cosine_loop [1 / 2 ^ 600] [1] (Num 0, Num 0, Num 0) = (Num (1 / 2 ^ 600), Num 0, Num 1)"
    using small same by (simp add: round_double_0 round_double_1)
  show ?thesis
    unfolding cosineSimilarity_def loop
    by (simp add: round_double_0 round_double_1 infinity_def)
qed

lemma js_mul_zero_left: "js_mul (Num 0) z = Num 0 \<or> js_mul (Num 0) z = NaN"
  by (cases z) (simp_all add: round_double_0)

lemma js_mul_zero_right: "js_mul z (Num 0) = Num 0 \<or> js_mul z (Num 0) = NaN"
  by (cases z) (simp_all add: round_double_0)

lemma js_div_zero: "d = Num 0 \<or> d = NaN \<Longrightarrow> js_div (Num 0) d = NaN"
  by auto

lemma cosine_loop_zero_left:
  "length a = length b \<Longrightarrow> \<forall>x \<in> set a. x = 0 \<Longrightarrow>
   \<exists>normB'. cosine_loop a b (Num 0, Num 0, normB) = (Num 0, Num 0, normB')"
  by (induction a b arbitrary: normB rule: list_induct2) (simp_all add: round_double_0)

lemma cosine_loop_zero_right:
  "length a = length b \<Longrightarrow> \<forall>y \<in> set b. y = 0 \<Longrightarrow>
   \<exists>normA'. cosine_loop a b (Num 0, normA, Num 0) = (Num 0, normA', Num 0)"
  by (induction a b arbitrary: normA rule: list_induct2) (simp_all add: round_double_0)


text \<open>
  C3, as stated: cosineSimilarity returns a value in \<open>[-1, 1]\<close>, and 0 when a vector has
  zero magnitude. The code has no branch for a zero norm: for \<open>a = [0, 0]\<close> and
  \<open>b = [1, 0]\<close> it computes \<open>0 / (0 * 1)\<close>, which is NaN and not 0. And the quotient is
  rounded three times on its way: for \<open>a = b = [1, 1, 1]\<close> the code divides \<open>3\<close> by the
  rounded square of the rounded root of \<open>3\<close>, which is a little less than \<open>3\<close>, and
  returns \<open>1 + 2\<^sup>-\<^sup>5\<^sup>2\<close>, the double above \<open>1\<close>.
\<close>

theorem cosineSimilarity_not_zero_not_bounded:
  "cosineSimilarity [0, 0] [1, 0] = NaN
   \<and> cosineSimilarity [0, 0] [1, 0] \<noteq> Num 0
   \<and> cosineSimilarity [1, 1, 1] [1, 1, 1] = Num (4503599627370497 / 2 ^ 52)
   \<and> js_gt (cosineSimilarity [1, 1, 1] [1, 1, 1]) (Num 1)"
proof -
  have "cosineSimilarity [0, 0] [1, 0] = NaN"
    by (simp add: cosineSimilarity_def round_double_0 round_double_1)
  then show ?thesis
    by (simp add: cosine_ones)
qed

text \<open>
  C3, amended: for two vectors of equal length of which one consists of zeros only,
  cosineSimilarity returns NaN; for vectors of different lengths it returns 0. (No bound
  is stated for the other vectors.)
\<close>

theorem cosineSimilarity_zero_or_unequal:
  "(length a \<noteq> length b \<longrightarrow> cosineSimilarity a b = Num 0)
   \<and> (length a = length b \<and> ((\<forall>x \<in> set a. x = 0) \<or> (\<forall>y \<in> set b. y = 0)) \<longrightarrow>
        cosineSimilarity a b = NaN)"
proof (intro conjI impI)
  assume "length a \<noteq> length b"
  then show "cosineSimilarity a b = Num 0"
    by (simp add: cosineSimilarity_def)
next
  assume "length a = length b \<and> ((\<forall>x \<in> set a. x = 0) \<or> (\<forall>y \<in> set b. y = 0))"
  then have len: "length a = length b"
    and zero: "(\<forall>x \<in> set a. x = 0) \<or> (\<forall>y \<in> set b. y = 0)"
    by simp_all
  from zero show "cosineSimilarity a b = NaN"
  proof
    assume "\<forall>x \<in> set a. x = 0"
    from cosine_loop_zero_left [OF len this]
    obtain normB where "cosine_loop a b (Num 0, Num 0, Num 0) = (Num 0, Num 0, normB)"
      by blast
    then have "cosineSimilarity a b = js_div (Num 0) (js_mul (Num 0) (js_sqrt normB))"
      using len by (simp add: cosineSimilarity_def round_double_0)
    then show ?thesis
      using js_mul_zero_left [of "js_sqrt normB"] by (simp only: js_div_zero)
  next
    assume "\<forall>y \<in> set b. y = 0"
    from cosine_loop_zero_right [OF len this]
    obtain normA where "cosine_loop a b (Num 0, Num 0, Num 0) = (Num 0, normA, Num 0)"
      by blast
    then have "cosineSimilarity a b = js_div (Num 0) (js_mul (js_sqrt normA) (Num 0))"
      using len by (simp add: cosineSimilarity_def round_double_0)
    then show ?thesis
      using js_mul_zero_right [of "js_sqrt normA"] by (simp only: js_div_zero)
  qed
qed


theorem cosineSimilarity_zero_or_unequal_witness:
  "length [1 :: real] \<noteq> length [1, 0 :: real] \<and> cosineSimilarity [1] [1, 0] = Num 0
   \<and> length [0, 0 :: real] = length [1, 0 :: real] \<and> cosineSimilarity [0, 0] [1, 0] = NaN
   \<and> length [1, 0 :: real] = length [0, 0 :: real] \<and> cosineSimilarity [1, 0] [0, 0] = NaN"
  using cosineSimilarity_zero_or_unequal [of "[1]" "[1, 0]"]
    cosineSimilarity_zero_or_unequal [of "[0, 0]" "[1, 0]"]
    cosineSimilarity_zero_or_unequal [of "[1, 0]" "[0, 0]"]
  by simp


subsection \<open>C4: the fallback analysis\<close>

text \<open>
  C4, as stated: the fallback table has one entry for each of the six categories. The
  table \<open>mockAnalyses\<close> has no entry for data_breach, phishing and dos_attack; an event
  of such a category gets the entry of intrusion.
\<close>

theorem mockAnalyses_missing_entry:
  "map_of mockAnalyses (event_type_str Data_breach) = None
   \<and> map_of mockAnalyses (event_type_str Phishing) = None
   \<and> map_of mockAnalyses (event_type_str Dos_attack) = None
   \<and> getMockAnalysis (Some Data_breach) = getMockAnalysis (Some Intrusion)"
  by (simp add: mockAnalyses_def getMockAnalysis_def)

text \<open>
  C4, amended: without an API key, and when the request to the provider fails or brings
  no content, the analysis of an event is \<open>getMockAnalysis\<close> of its category. That is
  a lookup in a fixed table with the three entries intrusion, malware and
  network_anomaly; every other category (data_breach, phishing, dos_attack) and an absent
  category get the entry of intrusion, which is the default.
\<close>

theorem fallback_analysis_table:
  "analyzeSecurityEvent False completion parse t = getMockAnalysis t
   \<and> analyzeSecurityEvent api_key Rejected parse t = getMockAnalysis t
   \<and> analyzeSecurityEvent api_key (Content None) parse t = getMockAnalysis t
   \<and> map fst mockAnalyses = [''intrusion'', ''malware'', ''network_anomaly'']
   \<and> getMockAnalysis (Some Intrusion) = Some mock_intrusion
   \<and> getMockAnalysis (Some Malware) = Some mock_malware
   \<and> getMockAnalysis (Some Network_anomaly) = Some mock_network_anomaly
   \<and> getMockAnalysis (Some Data_breach) = Some mock_intrusion
   \<and> getMockAnalysis (Some Phishing) = Some mock_intrusion
   \<and> getMockAnalysis (Some Dos_attack) = Some mock_intrusion
   \<and> getMockAnalysis None = Some mock_intrusion"
  by (simp add: analyzeSecurityEvent_def mockAnalyses_def getMockAnalysis_def)

subsection \<open>C6: getTopThreats\<close>

text \<open>
  C6 says that each entry of the result carries one of the six categories and one of the
  four severity levels. The entry is rebuilt from the key by \<^verbatim>\<open>key.split('_')\<close>, and
  three category names contain the separator: for one stored event of category
  network_anomaly and severity high, the key is \<^verbatim>\<open>network_anomaly_high\<close> and the entry
  has the type \<^verbatim>\<open>network\<close> and the severity \<^verbatim>\<open>anomaly\<close>.
\<close>

theorem getTopThreats_network_anomaly:
  "getTopThreats 5 \<lparr>events = [new_event ''e1'' (example_data Network_anomaly High)], isGenerating = False\<rparr>
     = [\<lparr>threat = Some ''network'', occurrences = 1, level = Some ''anomaly''\<rparr>]"
  by (simp add: getTopThreats_def count_by_def threat_key_def threat_entry_def js_sort_def
      js_slice_def js_index_def new_event_def example_data_def EventData.defs SecurityEvent.defs)

subsection \<open>C7: getStats\<close>

lemma sum_increment: "sum_list (map snd (increment k acc)) = Suc (sum_list (map snd acc))"
  by (induction k acc rule: increment.induct) auto

lemma sum_foldl_increment:
  "sum_list (map snd (foldl (\<lambda>acc x. increment (key x) acc) acc xs))
     = sum_list (map snd acc) + length xs"
  by (induction xs arbitrary: acc) (simp_all add: sum_increment)

lemma sum_count_by: "sum_list (map snd (count_by key xs)) = length xs"
  by (simp add: count_by_def sum_foldl_increment)

lemma keys_increment:
  "map fst (increment k acc) = (if k \<in> fst ` set acc then map fst acc else map fst acc @ [k])"
  by (induction k acc rule: increment.induct) auto

lemma distinct_foldl_increment:
  "distinct (map fst acc) \<Longrightarrow>
   distinct (map fst (foldl (\<lambda>acc x. increment (key x) acc) acc xs))"
  by (induction xs arbitrary: acc) (simp_all add: keys_increment)

lemma distinct_count_by: "distinct (map fst (count_by key xs))"
  by (simp add: count_by_def distinct_foldl_increment)

text \<open>
  C7: in every state of the store, totalEvents is the number of stored events, and the
  counts of eventsBySeverity, and those of eventsByStatus, add up to totalEvents (each of
  the two tables has every key once).
\<close>

theorem getStats_totals:
  "totalEvents (getStats cal now s) = length (events s)
   \<and> sum_list (map snd (eventsBySeverity (getStats cal now s))) = totalEvents (getStats cal now s)
   \<and> sum_list (map snd (eventsByStatus (getStats cal now s))) = totalEvents (getStats cal now s)
   \<and> distinct (map fst (eventsBySeverity (getStats cal now s)))
   \<and> distinct (map fst (eventsByStatus (getStats cal now s)))"
  by (simp add: getStats_def Let_def sum_count_by distinct_count_by)

subsection \<open>C5: searchSimilarEvents\<close>

lemma round_half_even_nonpos: "y \<le> 0 \<Longrightarrow> round_half_even y \<le> 0"
proof -
  assume y: "y \<le> 0"
  then have f: "\<lfloor>y\<rfloor> \<le> 0" by (simp add: floor_le_zero)
  show ?thesis
  proof (cases "\<lfloor>y\<rfloor> = 0")
    case True
    then have "0 \<le> y" by (metis of_int_0 of_int_floor_le)
    with y have "y = 0" by simp
    then show ?thesis by (simp add: round_half_even_def)
  next
    case False
    with f have "\<lfloor>y\<rfloor> + 1 \<le> 0" by linarith
    with f show ?thesis by (auto simp: round_half_even_def Let_def)
  qed
qed

lemma round_half_even_pos: "1 \<le> y \<Longrightarrow> 1 \<le> round_half_even y"
proof -
  assume "1 \<le> y"
  then have "1 \<le> \<lfloor>y\<rfloor>" by (simp add: le_floor_iff)
  then show ?thesis by (simp add: round_half_even_def Let_def)
qed

text \<open>The doubles that are reals are multiples of the least positive double.\<close>

lemma round_double_multiple:
  assumes "round_double x = Num r"
  shows "\<exists>k :: int. r = of_int k * 2 powr (- 1074)"
proof (cases "x = 0")
  case True
  with assms have "r = of_int 0 * 2 powr (- 1074)" by (simp add: round_double_def)
  then show ?thesis by blast
next
  case False
  define e where "e = max \<lfloor>log 2 \<bar>x\<bar>\<rfloor> (- 1022)"
  define m where "m = round_half_even (x / 2 powr (of_int e - 52))"
  have r: "r = of_int m * 2 powr (of_int e - 52)"
    using assms False unfolding round_double_def Let_def e_def [symmetric] m_def [symmetric]
    by (simp split: if_splits)
  have "0 \<le> e + 1022" by (simp add: e_def)
  have "(2 :: real) powr (of_int e - 52) = 2 powr (of_int (e + 1022) + (- 1074))"
    by simp
  also have "\<dots> = 2 powr of_int (e + 1022) * 2 powr (- 1074)"
    by (rule powr_add)
  also have "(2 :: real) powr of_int (e + 1022) = of_int (2 ^ nat (e + 1022))"
  proof -
    have "real_of_int (e + 1022) = real (nat (e + 1022))"
      using \<open>0 \<le> e + 1022\<close> by simp
    then have "(2 :: real) powr of_int (e + 1022) = 2 powr real (nat (e + 1022))"
      by (simp only:)
    also have "\<dots> = 2 ^ nat (e + 1022)"
      by (rule powr_realpow) simp
    finally show ?thesis by simp
  qed
  finally have "r = of_int (m * 2 ^ nat (e + 1022)) * 2 powr (- 1074)"
    using r by simp
  then show ?thesis by blast
qed

lemma round_double_sign:
  fixes k :: int
  assumes z: "z = of_int k * 2 powr (- 1074)"
  shows "not_after (round_double z) \<longleftrightarrow> z \<le> 0"
proof (cases "z = 0")
  case True
  then show ?thesis by (simp add: round_double_def)
next
  case False
  define e where "e = max \<lfloor>log 2 \<bar>z\<bar>\<rfloor> (- 1022)"
  define q :: real where "q = 2 powr (of_int e - 52)"
  define m where "m = round_half_even (z / q)"
  have q: "0 < q" by (simp add: q_def)
  have val: "round_double z
      = (if 2 ^ 1024 \<le> of_int m * q then PosInf
         else if of_int m * q \<le> - (2 ^ 1024) then NegInf else Num (of_int m * q))"
    using False unfolding round_double_def Let_def e_def [symmetric] q_def [symmetric]
      m_def [symmetric] by simp
  show ?thesis
  proof (cases "z < 0")
    case True
    then have "z / q \<le> 0" using q by (simp add: divide_le_0_iff)
    then have "m \<le> 0" unfolding m_def by (rule round_half_even_nonpos)
    then have "of_int m * q \<le> 0" using q by (simp add: mult_le_0_iff)
    then have "not_after (round_double z)"
      unfolding val by (auto simp del: power_numeral_even power_numeral_odd)
    with True show ?thesis by simp
  next
    case nonneg: False
    with False have pos: "0 < z" by simp
    have "1 \<le> z / q"
    proof (cases "- 1022 \<le> \<lfloor>log 2 \<bar>z\<bar>\<rfloor>")
      case True
      then have e: "e = \<lfloor>log 2 z\<rfloor>" using pos by (simp add: e_def)
      have "2 powr of_int \<lfloor>log 2 z\<rfloor> \<le> z"
        using pos floor_log_eq_powr_iff [of z 2 "\<lfloor>log 2 z\<rfloor>"] by simp
      moreover have "q * 2 powr 52 = 2 powr (of_int \<lfloor>log 2 z\<rfloor> - 52 + 52)"
        unfolding q_def e by (rule powr_add [symmetric])
      ultimately have "q * 2 powr 52 \<le> z"
        by simp
      moreover have "(1 :: real) \<le> 2 powr 52" by simp
      ultimately have "q * 1 \<le> z"
        using q by (meson mult_left_mono less_imp_le order_trans)
      then show ?thesis using q by (simp add: le_divide_eq mult.commute)
    next
      case False
      then have e: "e = - 1022" by (simp add: e_def)
      then have qv: "q = 2 powr (- 1074)" by (simp add: q_def)
      have "0 < k" using pos z by (simp add: zero_less_mult_iff)
      then have "1 \<le> real_of_int k" by simp
      moreover have "z / q = real_of_int k" by (simp add: z qv)
      ultimately show ?thesis by simp
    qed
    then have "1 \<le> m" unfolding m_def by (rule round_half_even_pos)
    then have "0 < of_int m * q" using q by simp
    then have "\<not> not_after (round_double z)"
      unfolding val by (auto simp del: power_numeral_even power_numeral_odd)
    with pos show ?thesis by simp
  qed
qed

lemma js_div_multiple:
  "js_div u v = Num r \<Longrightarrow> \<exists>k :: int. r = of_int k * 2 powr (- 1074)"
proof (cases u; cases v)
  fix x y
  assume "js_div u v = Num r" "u = Num x" "v = Num y"
  then have "round_double (x / y) = Num r"
    by (simp add: infinity_def split: if_splits)
  then show ?thesis by (rule round_double_multiple)
next
  fix x
  assume "js_div u v = Num r" "u = Num x" "v = PosInf"
  then have "r = of_int 0 * 2 powr (- 1074)" by simp
  then show ?thesis by blast
next
  fix x
  assume "js_div u v = Num r" "u = Num x" "v = NegInf"
  then have "r = of_int 0 * 2 powr (- 1074)" by simp
  then show ?thesis by blast
qed (simp_all add: infinity_def split: if_splits)

lemma cosineSimilarity_multiple:
  assumes "cosineSimilarity a b = Num r"
  shows "\<exists>k :: int. r = of_int k * 2 powr (- 1074)"
proof (cases "length a = length b")
  case False
  with assms have "r = of_int 0 * 2 powr (- 1074)" by (simp add: cosineSimilarity_def)
  then show ?thesis by blast
next
  case True
  with assms show ?thesis
    by (auto simp: cosineSimilarity_def split: prod.splits dest: js_div_multiple)
qed

lemma mset_insert_by: "mset (insert_by cmp x ys) = add_mset x (mset ys)"
  by (induction ys) simp_all

lemma mset_js_sort: "mset (js_sort cmp xs) = mset xs"
  unfolding js_sort_def by (induction xs) (simp_all add: mset_insert_by)

lemma set_insert_by: "set (insert_by cmp x ys) = insert x (set ys)"
  by (induction ys) auto

lemma sorted_insert_by:
  assumes cmp: "\<And>a b. a \<in> A \<Longrightarrow> b \<in> A \<Longrightarrow> not_after (cmp a b) = le a b"
    and trans: "\<And>a b c. a \<in> A \<Longrightarrow> b \<in> A \<Longrightarrow> c \<in> A \<Longrightarrow> le a b \<Longrightarrow> le b c \<Longrightarrow> le a c"
    and total: "\<And>a b. a \<in> A \<Longrightarrow> b \<in> A \<Longrightarrow> \<not> le a b \<Longrightarrow> le b a"
  shows "x \<in> A \<Longrightarrow> set ys \<subseteq> A \<Longrightarrow> sorted_wrt le ys \<Longrightarrow> sorted_wrt le (insert_by cmp x ys)"
proof (induction ys)
  case Nil
  show ?case by simp
next
  case (Cons y ys)
  have y: "y \<in> A" and ys: "set ys \<subseteq> A"
    using Cons.prems(2) by simp_all
  show ?case
  proof (cases "not_after (cmp x y)")
    case True
    then have xy: "le x y"
      using cmp [of x y] Cons.prems(1) y by simp
    have "le x z" if "z \<in> set ys" for z
    proof -
      have "le y z" using Cons.prems(3) that by simp
      with xy show ?thesis
        using trans [of x y z] Cons.prems(1) y ys that by blast
    qed
    with xy True Cons.prems(3) show ?thesis by simp
  next
    case False
    then have "\<not> le x y"
      using cmp [of x y] Cons.prems(1) y by simp
    then have "le y x"
      using total [of x y] Cons.prems(1) y by simp
    moreover have "sorted_wrt le (insert_by cmp x ys)"
      using Cons.prems(1,3) ys by (intro Cons.IH) simp_all
    ultimately show ?thesis
      using False Cons.prems(3) by (simp add: set_insert_by)
  qed
qed

lemma sorted_js_sort:
  assumes cmp: "\<And>a b. a \<in> A \<Longrightarrow> b \<in> A \<Longrightarrow> not_after (cmp a b) = le a b"
    and trans: "\<And>a b c. a \<in> A \<Longrightarrow> b \<in> A \<Longrightarrow> c \<in> A \<Longrightarrow> le a b \<Longrightarrow> le b c \<Longrightarrow> le a c"
    and total: "\<And>a b. a \<in> A \<Longrightarrow> b \<in> A \<Longrightarrow> \<not> le a b \<Longrightarrow> le b a"
  shows "set xs \<subseteq> A \<Longrightarrow> sorted_wrt le (js_sort cmp xs)"
proof (induction xs)
  case Nil
  show ?case by (simp add: js_sort_def)
next
  case (Cons x xs)
  have "set (js_sort cmp xs) = set xs"
    using mset_js_sort [of cmp xs] by (metis set_mset_mset)
  then have sub: "set (js_sort cmp xs) \<subseteq> A"
    using Cons.prems by simp
  have srt: "sorted_wrt le (js_sort cmp xs)"
    using Cons.prems by (intro Cons.IH) simp
  have "sorted_wrt le (insert_by cmp x (js_sort cmp xs))"
  proof (rule sorted_insert_by [where A = A])
    show "x \<in> A" using Cons.prems by simp
    show "set (js_sort cmp xs) \<subseteq> A" by (rule sub)
    show "sorted_wrt le (js_sort cmp xs)" by (rule srt)
  next
    fix a b
    assume "a \<in> A" "b \<in> A"
    then show "not_after (cmp a b) = le a b" by (rule cmp)
  next
    fix a b c
    assume "a \<in> A" "b \<in> A" "c \<in> A" "le a b" "le b c"
    then show "le a c" by (rule trans)
  next
    fix a b
    assume "a \<in> A" "b \<in> A" "\<not> le a b"
    then show "le b a" by (rule total)
  qed
  then show ?case by (simp add: js_sort_def)
qed

lemma js_slice_map: "js_slice i j (map f xs) = map f (js_slice i j xs)"
  by (simp add: js_slice_def Let_def take_map drop_map)

lemma js_slice_take: "0 \<le> limit \<Longrightarrow> js_slice 0 limit xs = take (nat limit) xs"
  by (simp add: js_slice_def js_index_def Let_def min_def)

lemma js_slice_drop_last:
  "limit < 0 \<Longrightarrow> js_slice 0 limit xs = take (length xs - nat (- limit)) xs"
proof -
  assume "limit < 0"
  then have "nat (int (length xs) + limit) = length xs - nat (- limit)"
    by linarith
  with \<open>limit < 0\<close> show ?thesis
    by (simp add: js_slice_def js_index_def Let_def)
qed

lemma rankable_compare:
  assumes "rankable u" "rankable v"
  shows "not_after (js_sub v u) = (\<not> js_gt v u)"
proof -
  consider "u = PosInf" "v = PosInf"
    | k where "u = PosInf" "v = Num (of_int k * 2 powr (- 1074))"
    | k where "u = Num (of_int k * 2 powr (- 1074))" "v = PosInf"
    | k l where "u = Num (of_int k * 2 powr (- 1074))" "v = Num (of_int l * 2 powr (- 1074))"
    using assms unfolding rankable_def by blast
  then show ?thesis
  proof cases
    case 4
    have "real_of_int l * 2 powr (- 1074) - of_int k * 2 powr (- 1074)
        = of_int (l - k) * 2 powr (- 1074)"
      by (simp add: algebra_simps)
    from round_double_sign [OF this] show ?thesis
      unfolding 4 by (simp add: not_less)
  qed simp_all
qed

lemma rankable_trans:
  "rankable u \<Longrightarrow> rankable v \<Longrightarrow> rankable w \<Longrightarrow>
   \<not> js_gt v u \<Longrightarrow> \<not> js_gt w v \<Longrightarrow> \<not> js_gt w u"
  unfolding rankable_def by (elim disjE exE) auto

lemma rankable_total: "rankable u \<Longrightarrow> rankable v \<Longrightarrow> js_gt v u \<Longrightarrow> \<not> js_gt u v"
  unfolding rankable_def by (elim disjE exE) simp_all

lemma rankable_cosine:
  assumes "js_gt (cosineSimilarity a b) threshold"
  shows "rankable (cosineSimilarity a b)"
proof (cases "cosineSimilarity a b")
  case (Num r)
  from cosineSimilarity_multiple [OF this] Num show ?thesis
    by (auto simp: rankable_def)
next
  case PosInf
  then show ?thesis by (simp add: rankable_def)
next
  case NegInf
  with assms show ?thesis by (cases threshold) simp_all
next
  case NaN
  with assms show ?thesis by simp
qed

lemma cosine_same: "cosineSimilarity [1, 0] [1, 0] = Num 1"
  by (simp add: cosineSimilarity_def round_double_0 round_double_1)

lemma cosine_orthogonal: "cosineSimilarity [1, 0] [0, 1] = Num 0"
  by (simp add: cosineSimilarity_def round_double_0 round_double_1)

lemma cosine_opposite: "cosineSimilarity [1, 0] [- 1, 0] = Num (- 1)"
  by (simp add: cosineSimilarity_def round_double_0 round_double_1 round_double_minus_1)


text \<open>
  C5, as stated: for every limit the result has at most \<open>limit\<close> events. For a negative
  limit \<^verbatim>\<open>slice(0, limit)\<close> drops events from the end of the ordered list: with two
  qualifying events and the limit \<open>-1\<close> the result has one event.
\<close>

theorem searchSimilarEvents_negative_limit:
  "searchSimilarEvents (example_event ''t'' (Some [1, 0])) (Num (1 / 2)) (- 1)
     \<lparr>events = [example_event ''a'' (Some [1, 0]), example_event ''b'' (Some [1, 0]),
                example_event ''t'' (Some [1, 0])], isGenerating = False\<rparr>
     = [example_event ''a'' (Some [1, 0])]
   \<and> \<not> int (length (searchSimilarEvents (example_event ''t'' (Some [1, 0])) (Num (1 / 2)) (- 1)
          \<lparr>events = [example_event ''a'' (Some [1, 0]), example_event ''b'' (Some [1, 0]),
                     example_event ''t'' (Some [1, 0])], isGenerating = False\<rparr>)) \<le> - 1"
  by (simp add: searchSimilarEvents_def score_def cosine_same round_double_0 js_sort_def
      js_slice_def js_index_def example_event_def new_event_def EventData.defs
      SecurityEvent.defs)

text \<open>
  C5, amended: for a target without embedding the result is empty. For a target with an
  embedding, the result is the part \<^verbatim>\<open>slice(0, limit)\<close> of a list \<open>ranked\<close> that holds
  exactly the stored events which have an embedding, an id other than the target's, and
  a similarity to the target above the threshold, in an order in which no event is
  followed by a more similar one. For a limit that is not negative that part are the
  first \<open>limit\<close> events, so that the result has at most \<open>limit\<close> events; for a
  negative limit it is the list without its last \<open>-limit\<close> events.
\<close>

theorem searchSimilarEvents_ranked:
  "(embedding t = None \<longrightarrow> searchSimilarEvents t threshold limit s = [])
   \<and> (\<forall>target. embedding t = Some target \<longrightarrow>
        (\<exists>ranked.
           mset ranked
             = mset (filter (\<lambda>e. embedding e \<noteq> None \<and> event_id e \<noteq> event_id t
                              \<and> js_gt (similarity (score target e)) threshold) (events s))
         \<and> sorted_wrt (\<lambda>a b. \<not> js_gt (similarity (score target b)) (similarity (score target a)))
               ranked
         \<and> searchSimilarEvents t threshold limit s = js_slice 0 limit ranked
         \<and> (0 \<le> limit \<longrightarrow>
               searchSimilarEvents t threshold limit s = take (nat limit) ranked
             \<and> int (length (searchSimilarEvents t threshold limit s)) \<le> limit)
         \<and> (limit < 0 \<longrightarrow>
               searchSimilarEvents t threshold limit s
                 = take (length ranked - nat (- limit)) ranked)))"
proof (intro conjI impI allI)
  assume "embedding t = None"
  then show "searchSimilarEvents t threshold limit s = []"
    by (simp add: searchSimilarEvents_def)
next
  fix target
  assume target: "embedding t = Some target"
  define qualifying where "qualifying =
    filter (\<lambda>e. embedding e \<noteq> None \<and> event_id e \<noteq> event_id t
                 \<and> js_gt (similarity (score target e)) threshold) (events s)"
  define cmp where "cmp = (\<lambda>(a :: item) (b :: item). js_sub (similarity b) (similarity a))"
  define le where "le = (\<lambda>(a :: item) (b :: item). \<not> js_gt (similarity b) (similarity a))"
  define items where "items = js_sort cmp (map (score target) qualifying)"
  define ranked where "ranked = map event_of items"
  have filtered: "filter (\<lambda>item. js_gt (similarity item) threshold)
        (map (score target)
          (filter (\<lambda>event. embedding event \<noteq> None \<and> event_id event \<noteq> event_id t) (events s)))
      = map (score target) qualifying"
    by (simp add: qualifying_def filter_map comp_def conj_commute conj_left_commute)
  have "searchSimilarEvents t threshold limit s
      = map event_of (js_slice 0 limit (js_sort cmp (map (score target) qualifying)))"
    unfolding searchSimilarEvents_def target cmp_def Let_def option.case filtered ..
  then have result: "searchSimilarEvents t threshold limit s = js_slice 0 limit ranked"
    by (simp only: ranked_def items_def js_slice_map)
  have set_items: "set items = score target ` set qualifying"
    using mset_js_sort [of cmp "map (score target) qualifying"]
    by (metis items_def list.set_map set_mset_mset)
  have all_rankable: "set (map (score target) qualifying) \<subseteq> {it. rankable (similarity it)}"
  proof
    fix it
    assume "it \<in> set (map (score target) qualifying)"
    then obtain e where e: "e \<in> set qualifying" "it = score target e"
      by auto
    then have "js_gt (similarity it) threshold"
      by (simp add: qualifying_def)
    then have "rankable (similarity it)"
      unfolding e(2) score_def by (simp add: rankable_cosine)
    then show "it \<in> {it. rankable (similarity it)}"
      by simp
  qed
  have sorted_items: "sorted_wrt le items"
    unfolding items_def
  proof (rule sorted_js_sort [where A = "{it. rankable (similarity it)}"])
    show "set (map (score target) qualifying) \<subseteq> {it. rankable (similarity it)}"
      by (rule all_rankable)
  next
    fix a b :: item
    assume "a \<in> {it. rankable (similarity it)}" "b \<in> {it. rankable (similarity it)}"
    then show "not_after (cmp a b) = le a b"
      by (simp add: cmp_def le_def rankable_compare)
  next
    fix a b c :: item
    assume "a \<in> {it. rankable (similarity it)}" "b \<in> {it. rankable (similarity it)}"
      "c \<in> {it. rankable (similarity it)}" "le a b" "le b c"
    then show "le a c"
      unfolding le_def using rankable_trans [of "similarity a" "similarity b" "similarity c"]
      by simp
  next
    fix a b :: item
    assume "a \<in> {it. rankable (similarity it)}" "b \<in> {it. rankable (similarity it)}"
      "\<not> le a b"
    then show "le b a"
      unfolding le_def using rankable_total [of "similarity a" "similarity b"]
      by simp
  qed
  have rebuilt: "score target (event_of it) = it" if "it \<in> set items" for it
    using that set_items by (auto simp: score_def)
  have "sorted_wrt (\<lambda>a b. \<not> js_gt (similarity (score target (event_of b)))
                              (similarity (score target (event_of a)))) items"
  proof (rule sorted_wrt_mono_rel [OF _ sorted_items])
    fix a b
    assume ab: "a \<in> set items" "b \<in> set items" "le a b"
    then show "\<not> js_gt (similarity (score target (event_of b)))
                       (similarity (score target (event_of a)))"
      by (simp add: rebuilt le_def)
  qed
  then have sorted_ranked:
    "sorted_wrt (\<lambda>a b. \<not> js_gt (similarity (score target b)) (similarity (score target a))) ranked"
    by (simp add: ranked_def sorted_wrt_map)
  have "mset ranked = image_mset event_of (image_mset (score target) (mset qualifying))"
    by (simp add: ranked_def items_def mset_js_sort)
  also have "\<dots> = mset qualifying"
    by (simp add: image_mset.compositionality comp_def score_def)
  finally have perm: "mset ranked = mset qualifying" .
  have bound: "searchSimilarEvents t threshold limit s = take (nat limit) ranked
      \<and> int (length (searchSimilarEvents t threshold limit s)) \<le> limit" if "0 \<le> limit"
    using that by (simp add: result js_slice_take)
  have negative: "searchSimilarEvents t threshold limit s
      = take (length ranked - nat (- limit)) ranked" if "limit < 0"
    using that by (simp only: result js_slice_drop_last)
  show "\<exists>ranked.
           mset ranked
             = mset (filter (\<lambda>e. embedding e \<noteq> None \<and> event_id e \<noteq> event_id t
                              \<and> js_gt (similarity (score target e)) threshold) (events s))
         \<and> sorted_wrt (\<lambda>a b. \<not> js_gt (similarity (score target b)) (similarity (score target a)))
               ranked
         \<and> searchSimilarEvents t threshold limit s = js_slice 0 limit ranked
         \<and> (0 \<le> limit \<longrightarrow>
               searchSimilarEvents t threshold limit s = take (nat limit) ranked
             \<and> int (length (searchSimilarEvents t threshold limit s)) \<le> limit)
         \<and> (limit < 0 \<longrightarrow>
               searchSimilarEvents t threshold limit s
                 = take (length ranked - nat (- limit)) ranked)"
    using perm sorted_ranked result bound negative unfolding qualifying_def by blast
qed


theorem searchSimilarEvents_ranked_witness:
  "embedding (example_event ''t'' None) = None
   \<and> searchSimilarEvents (example_event ''t'' None) (Num (- (1 / 2))) 5
         \<lparr>events = [example_event ''a'' (Some [0, 1]), example_event ''b'' (Some [1, 0]),
                    example_event ''c'' None, example_event ''d'' (Some [- 1, 0]),
                    example_event ''t'' (Some [1, 0])], isGenerating = False\<rparr> = []
   \<and> embedding (example_event ''t'' (Some [1, 0])) = Some [1, 0]
   \<and> (0 :: int) \<le> 5
   \<and> searchSimilarEvents (example_event ''t'' (Some [1, 0])) (Num (- (1 / 2))) 5
         \<lparr>events = [example_event ''a'' (Some [0, 1]), example_event ''b'' (Some [1, 0]),
                    example_event ''c'' None, example_event ''d'' (Some [- 1, 0]),
                    example_event ''t'' (Some [1, 0])], isGenerating = False\<rparr>
       = [example_event ''b'' (Some [1, 0]), example_event ''a'' (Some [0, 1])]
   \<and> (- 1 :: int) < 0
   \<and> searchSimilarEvents (example_event ''t'' (Some [1, 0])) (Num (- (1 / 2))) (- 1)
         \<lparr>events = [example_event ''a'' (Some [0, 1]), example_event ''b'' (Some [1, 0]),
                    example_event ''c'' None, example_event ''d'' (Some [- 1, 0]),
                    example_event ''t'' (Some [1, 0])], isGenerating = False\<rparr>
       = [example_event ''b'' (Some [1, 0])]"
  using searchSimilarEvents_ranked [of "example_event ''t'' None" "Num (- (1 / 2))" 5
      "\<lparr>events = [example_event ''a'' (Some [0, 1]), example_event ''b'' (Some [1, 0]),
                  example_event ''c'' None, example_event ''d'' (Some [- 1, 0]),
                  example_event ''t'' (Some [1, 0])], isGenerating = False\<rparr>"]
    searchSimilarEvents_ranked [of "example_event ''t'' (Some [1, 0])" "Num (- (1 / 2))" 5
      "\<lparr>events = [example_event ''a'' (Some [0, 1]), example_event ''b'' (Some [1, 0]),
                  example_event ''c'' None, example_event ''d'' (Some [- 1, 0]),
                  example_event ''t'' (Some [1, 0])], isGenerating = False\<rparr>"]
    searchSimilarEvents_ranked [of "example_event ''t'' (Some [1, 0])" "Num (- (1 / 2))" "- 1"
      "\<lparr>events = [example_event ''a'' (Some [0, 1]), example_event ''b'' (Some [1, 0]),
                  example_event ''c'' None, example_event ''d'' (Some [- 1, 0]),
                  example_event ''t'' (Some [1, 0])], isGenerating = False\<rparr>"]
  by (simp add: searchSimilarEvents_def score_def cosine_same cosine_orthogonal cosine_opposite
      round_double_1 round_double_minus_1 js_sort_def js_slice_def js_index_def
      example_event_def new_event_def EventData.defs SecurityEvent.defs)


subsection \<open>C9: starting and stopping the generation\<close>

lemma generateEvent_stopped: "\<not> isGenerating r \<Longrightarrow> generateEvent ms r = r"
  by (simp add: generateEvent_def)

lemma length_remove_nth: "length (remove_nth k xs) \<le> length xs"
  by (simp add: remove_nth_def)

lemma step_stopped:
  assumes "\<not> isGenerating r" "\<not> is_start a" "step f a r = Some r'"
  shows "\<not> isGenerating r' \<and> addEvent_calls r' = addEvent_calls r
         \<and> length (awaiting r') \<le> length (awaiting r)"
proof (cases a)
  case (Start ms)
  with assms(2) show ?thesis by simp
next
  case Stop
  with assms show ?thesis by (auto simp: stopContinuousGeneration_def)
next
  case (TimerFires k)
  with assms show ?thesis
    by (auto simp: generateEvent_def split: if_splits)
next
  case (AddEventSettled k c)
  with assms show ?thesis
    by (auto simp: unshift_event_def Let_def length_remove_nth split: if_splits)
qed

lemma run_stopped:
  "\<not> isGenerating r \<Longrightarrow> \<forall>a \<in> set acts. \<not> is_start a \<Longrightarrow> run f acts r = Some r' \<Longrightarrow>
   \<not> isGenerating r' \<and> addEvent_calls r' = addEvent_calls r
   \<and> length (awaiting r') \<le> length (awaiting r)"
proof (induction acts arbitrary: r)
  case Nil
  then show ?case by simp
next
  case (Cons a acts)
  from Cons.prems(3) obtain r1 where r1: "step f a r = Some r1" "run f acts r1 = Some r'"
    by (auto split: option.splits)
  have one: "\<not> isGenerating r1 \<and> addEvent_calls r1 = addEvent_calls r
      \<and> length (awaiting r1) \<le> length (awaiting r)"
    using Cons.prems(1,2) r1(1) by (intro step_stopped [of r a f r1]) simp_all
  have "\<not> isGenerating r' \<and> addEvent_calls r' = addEvent_calls r1
      \<and> length (awaiting r') \<le> length (awaiting r1)"
    using one Cons.prems(2) r1(2) by (intro Cons.IH) simp_all
  with one show ?case by simp
qed

text \<open>
  C9: a second start changes nothing, and a start while the generation is running leaves
  the state as it is (no further chain, timer or call). A second stop changes nothing,
  and a stop while nothing is running leaves the state as it is. After a stop, as long
  as start is not called again, whatever timers fire and whatever pending addEvent calls
  settle, the flag stays off, the number of addEvent calls issued by the loop stays what
  it was, and the suspended activations only become fewer.
\<close>

theorem generation_start_stop:
  "startContinuousGeneration ms' (startContinuousGeneration ms r) = startContinuousGeneration ms r
   \<and> (isGenerating r \<longrightarrow> startContinuousGeneration ms r = r)
   \<and> stopContinuousGeneration (stopContinuousGeneration r) = stopContinuousGeneration r
   \<and> (\<not> isGenerating r \<longrightarrow> stopContinuousGeneration r = r)
   \<and> ((\<forall>a \<in> set acts. \<not> is_start a) \<longrightarrow> run f acts (stopContinuousGeneration r) = Some r' \<longrightarrow>
        \<not> isGenerating r' \<and> addEvent_calls r' = addEvent_calls r
        \<and> length (awaiting r') \<le> length (awaiting r))"
proof (intro conjI impI)
  show "startContinuousGeneration ms' (startContinuousGeneration ms r) = startContinuousGeneration ms r"
    by (simp add: startContinuousGeneration_def generateEvent_def)
  show "stopContinuousGeneration (stopContinuousGeneration r) = stopContinuousGeneration r"
    by (simp add: stopContinuousGeneration_def)
next
  assume "isGenerating r"
  then show "startContinuousGeneration ms r = r"
    by (simp add: startContinuousGeneration_def)
next
  assume "\<not> isGenerating r"
  then show "stopContinuousGeneration r = r"
    by (simp add: stopContinuousGeneration_def)
next
  assume acts: "\<forall>a \<in> set acts. \<not> is_start a"
    and run: "run f acts (stopContinuousGeneration r) = Some r'"
  have "\<not> isGenerating (stopContinuousGeneration r)"
    by (simp add: stopContinuousGeneration_def)
  from run_stopped [OF this acts run]
  show "\<not> isGenerating r'" "addEvent_calls r' = addEvent_calls r"
    "length (awaiting r') \<le> length (awaiting r)"
    by (simp_all add: stopContinuousGeneration_def)
qed


theorem generation_start_stop_witness:
  "isGenerating \<lparr>events = [], isGenerating = True, timers = [5000], awaiting = [5000], addEvent_calls = 1\<rparr>
   \<and> startContinuousGeneration 5000
        \<lparr>events = [], isGenerating = True, timers = [5000], awaiting = [5000], addEvent_calls = 1\<rparr>
       = \<lparr>events = [], isGenerating = True, timers = [5000], awaiting = [5000], addEvent_calls = 1\<rparr>
   \<and> \<not> isGenerating \<lparr>events = [], isGenerating = False, timers = [], awaiting = [], addEvent_calls = 0\<rparr>
   \<and> stopContinuousGeneration
        \<lparr>events = [], isGenerating = False, timers = [], awaiting = [], addEvent_calls = 0\<rparr>
       = \<lparr>events = [], isGenerating = False, timers = [], awaiting = [], addEvent_calls = 0\<rparr>
   \<and> \<not> is_start (TimerFires 0) \<and> \<not> is_start (AddEventSettled 0 (example_ingest ''n''))
   \<and> \<not> is_start Stop
   \<and> run threat_type [TimerFires 0, AddEventSettled 0 (example_ingest ''n''), TimerFires 0, Stop]
        (stopContinuousGeneration
          \<lparr>events = [], isGenerating = True, timers = [5000], awaiting = [5000], addEvent_calls = 1\<rparr>)
       = Some \<lparr>events = [stored_event threat_type (example_ingest ''n'')], isGenerating = False,
                timers = [], awaiting = [], addEvent_calls = 1\<rparr>"
  using generation_start_stop [of 5000 5000
      "\<lparr>events = [], isGenerating = True, timers = [5000], awaiting = [5000], addEvent_calls = 1\<rparr>"
      "[TimerFires 0, AddEventSettled 0 (example_ingest ''n''), TimerFires 0, Stop]" threat_type
      "\<lparr>events = [stored_event threat_type (example_ingest ''n'')], isGenerating = False,
        timers = [], awaiting = [], addEvent_calls = 1\<rparr>"]
    generation_start_stop [of 5000 5000
      "\<lparr>events = [], isGenerating = False, timers = [], awaiting = [], addEvent_calls = 0\<rparr>"
      "[]" threat_type
      "\<lparr>events = [], isGenerating = False, timers = [], awaiting = [], addEvent_calls = 0\<rparr>"]
  by (simp add: startContinuousGeneration_def stopContinuousGeneration_def generateEvent_def
      unshift_event_def remove_nth_def)

end
